theory Spec2Isabelle
  imports Complex_Main "HOL-Library.Sublist"
begin

section \<open>Common conventions\<close>

text \<open>
  A tensor of floating point numbers is a list of reals (a matrix is the list of its
  rows), each a value of the tensor's floating point format. Every elementwise operation
  of the source computes the exact result and rounds it into that format; the rounding is
  the parameter \<open>fl\<close> of the functions below, so that what is proved holds for every format
  (\<open>fl32\<close> is the single precision one, \<open>\<lambda>x. x\<close> is exact arithmetic). Overflow to
  infinity is not modelled: inputs and intermediate results are finite. The only
  not-a-number values the assigner can produce itself (the mean of no rows, the unbiased
  standard deviation of fewer than two rows) are modelled by \<open>None\<close>. Every Python
  exception is a value of type \<open>error\<close>, and a function that may raise returns
  \<open>error + 'a\<close>.
\<close>

subsection \<open>Single precision rounding\<close>

text \<open>Rounding to the nearest integer, a tie going to the even one.\<close>

definition round_even :: "real \<Rightarrow> int" where
  "round_even y =
     (let f = \<lfloor>y\<rfloor>
      in if y - of_int f < 1 / 2 then f
         else if 1 / 2 < y - of_int f then f + 1
         else if even f then f else f + 1)"

text \<open>
  Rounding to the nearest number with a significand of 24 bits, ties to even: for \<open>x\<close>
  between \<open>2 ^ e\<close> and \<open>2 ^ (e + 1)\<close> the numbers of the format are the multiples of
  \<open>2 ^ (e - 23)\<close>. The range of the exponent is not bounded.
\<close>

definition fl32 :: "real \<Rightarrow> real" where
  "fl32 x =
     (if x = 0 then 0
      else let e = \<lfloor>log 2 \<bar>x\<bar>\<rfloor>;
               u = 2 powr of_int (e - 23)
           in sgn x * (u * of_int (round_even (\<bar>x\<bar> / u))))"

text \<open>
  A value of a floating point tensor where the claim depends on the values that are not
  numbers: a finite number of the format, an infinity, or not-a-number.
\<close>

datatype fval = Finite real | PosInf | NegInf | NaN

text \<open>
  The result of an operation whose exact value is \<open>y\<close>: the rounded value, or an infinity
  when the rounded value exceeds \<open>fmax\<close>, the largest finite number of the format.
\<close>

definition to_fval :: "(real \<Rightarrow> real) \<Rightarrow> real \<Rightarrow> real \<Rightarrow> fval" where
  "to_fval fl fmax y =
     (if fmax < fl y then PosInf else if fl y < - fmax then NegInf else Finite (fl y))"

text \<open>
  \<open>t * w\<close> for an entry \<open>t\<close> of a tensor and a Python number \<open>w\<close>, which is first
  converted to the format of the tensor: not-a-number stays, an infinity times zero is
  not-a-number, an infinity times another number is the infinity of the product's sign.
\<close>

definition fmul :: "(real \<Rightarrow> real) \<Rightarrow> real \<Rightarrow> fval \<Rightarrow> real \<Rightarrow> fval" where
  "fmul fl fmax t w =
     (case t of
        NaN \<Rightarrow> NaN
      | PosInf \<Rightarrow> (if 0 < fl w then PosInf else if fl w < 0 then NegInf else NaN)
      | NegInf \<Rightarrow> (if 0 < fl w then NegInf else if fl w < 0 then PosInf else NaN)
      | Finite x \<Rightarrow> to_fval fl fmax (x * fl w))"

text \<open>The largest finite number of single precision, \<open>2 ^ 128 - 2 ^ 104\<close>.\<close>

definition fmax32 :: real where
  "fmax32 = 340282346638528859811704183484516925440"

subsection \<open>Exceptions\<close>

datatype error = ValueError | RuntimeError | IndexError | ZeroDivisionError | AssertionError

definition then_do :: "error + 'a \<Rightarrow> ('a \<Rightarrow> error + 'b) \<Rightarrow> error + 'b" where
  "then_do m f = (case m of Inl e \<Rightarrow> Inl e | Inr x \<Rightarrow> f x)"

text \<open>Reading a tensor at a list of positions; a position out of range raises.\<close>

definition gather :: "'a list \<Rightarrow> nat list \<Rightarrow> error + 'a list" where
  "gather xs idxs =
     (if list_all (\<lambda>i. i < length xs) idxs then Inr (map (\<lambda>i. xs ! i) idxs)
      else Inl IndexError)"

definition column :: "'a list list \<Rightarrow> nat \<Rightarrow> 'a list" where
  "column m g = map (\<lambda>row. row ! g) m"

text \<open>\<open>t.view(-1, c)\<close> on a flat tensor: consecutive rows of \<open>c\<close> entries.\<close>

function view_rows :: "nat \<Rightarrow> 'a list \<Rightarrow> 'a list list" where
  "view_rows c xs = (if c = 0 \<or> xs = [] then [] else take c xs # view_rows c (drop c xs))"
  by pat_completeness auto
termination
  by (relation "measure (\<lambda>(c, xs). length xs)") auto

declare view_rows.simps [simp del]


section \<open>ATSSAssigner (mmdet/core/bbox/assigners/atss_assigner.py)\<close>

text \<open>A row of a box tensor of shape \<open>(n, 4)\<close>, in \<open>[tl_x, tl_y, br_x, br_y]\<close> format.\<close>

record bbox =
  tl_x :: real
  tl_y :: real
  br_x :: real
  br_y :: real

record assign_result =
  num_gts :: nat
  gt_inds :: "nat list"
  max_overlaps :: "real list"
  labels :: "int list option"

subsection \<open>Step 3: the candidates of every level (lines 60 to 78)\<close>

text \<open>\<open>(boxes[:, 0] + boxes[:, 2]) / 2.0\<close>: an addition and a division, each rounded.\<close>

definition center_x :: "(real \<Rightarrow> real) \<Rightarrow> bbox \<Rightarrow> real" where
  "center_x fl b = fl (fl (tl_x b + br_x b) / 2)"

definition center_y :: "(real \<Rightarrow> real) \<Rightarrow> bbox \<Rightarrow> real" where
  "center_y fl b = fl (fl (tl_y b + br_y b) / 2)"

text \<open>
  One entry of \<open>(bboxes_points[:, None, :] - gt_points[None, :, :]).pow(2).sum(-1).sqrt()\<close>:
  the two differences, their squares, the sum of the two squares and the square root are
  each rounded.
\<close>

definition center_distance :: "(real \<Rightarrow> real) \<Rightarrow> bbox \<Rightarrow> bbox \<Rightarrow> real" where
  "center_distance fl b g =
     fl (sqrt (fl (fl ((fl (center_x fl b - center_x fl g))\<^sup>2)
                   + fl ((fl (center_y fl b - center_y fl g))\<^sup>2))))"

definition distances :: "(real \<Rightarrow> real) \<Rightarrow> bbox list \<Rightarrow> bbox list \<Rightarrow> real list list" where
  "distances fl bboxes gt_bboxes =
     map (\<lambda>b. map (\<lambda>g. center_distance fl b g) gt_bboxes) bboxes"

text \<open>
  \<open>v.topk(k, largest=False)\<close> on a vector: the positions of the \<open>k\<close> smallest entries in
  increasing order of value. The library leaves the order of equal values open; the model
  takes the lower position first.
\<close>

definition smallest_idxs :: "nat \<Rightarrow> real list \<Rightarrow> nat list" where
  "smallest_idxs k ds = take k (sort_key (\<lambda>i. ds ! i) [0..<length ds])"

text \<open>
  \<open>m.topk(k, dim=0, largest=False)\<close> on a matrix with \<open>num_gt\<close> columns: a matrix of \<open>k\<close>
  rows whose column \<open>g\<close> holds the selection for column \<open>g\<close> of \<open>m\<close>; it raises when \<open>m\<close>
  has fewer than \<open>k\<close> rows.
\<close>

definition topk_dim0 :: "nat \<Rightarrow> nat \<Rightarrow> real list list \<Rightarrow> error + nat list list" where
  "topk_dim0 k num_gt m =
     (if length m < k then Inl RuntimeError
      else Inr (map (\<lambda>r. map (\<lambda>g. smallest_idxs k (column m g) ! r) [0..<num_gt]) [0..<k]))"

fun level_candidates ::
  "nat \<Rightarrow> nat \<Rightarrow> real list list \<Rightarrow> nat \<Rightarrow> nat list \<Rightarrow> error + nat list list list" where
  "level_candidates topk num_gt dmat start_idx [] = Inr []"
| "level_candidates topk num_gt dmat start_idx (bboxes_per_level # rest) =
     (let end_idx = start_idx + bboxes_per_level;
          distances_per_level = take (end_idx - start_idx) (drop start_idx dmat)
      in then_do (topk_dim0 topk num_gt distances_per_level) (\<lambda>topk_idxs_per_level.
         then_do (level_candidates topk num_gt dmat end_idx rest) (\<lambda>more.
         Inr (map (map (\<lambda>i. i + start_idx)) topk_idxs_per_level # more))))"

text \<open>\<open>torch.cat(ms, dim=0)\<close> raises on an empty list of tensors.\<close>

definition cat_dim0 :: "'a list list list \<Rightarrow> error + 'a list list" where
  "cat_dim0 ms = (if ms = [] then Inl RuntimeError else Inr (concat ms))"

definition candidate_idxs ::
  "(real \<Rightarrow> real) \<Rightarrow> nat \<Rightarrow> bbox list \<Rightarrow> nat list \<Rightarrow> bbox list
     \<Rightarrow> error + nat list list" where
  "candidate_idxs fl topk bboxes num_level_bboxes gt_bboxes =
     then_do (level_candidates topk (length gt_bboxes) (distances fl bboxes gt_bboxes) 0
                num_level_bboxes) cat_dim0"

subsection \<open>Steps 4 and 5: the threshold of every ground truth (lines 80 to 85)\<close>

text \<open>\<open>overlaps[candidate_idxs, torch.arange(num_gt)]\<close>\<close>

definition candidate_overlaps ::
  "real list list \<Rightarrow> nat \<Rightarrow> nat list list \<Rightarrow> error + real list list" where
  "candidate_overlaps overlaps num_gt cands =
     (if list_all (list_all (\<lambda>i. i < length overlaps)) cands
      then Inr (map (\<lambda>row. map (\<lambda>g. overlaps ! (row ! g) ! g) [0..<num_gt]) cands)
      else Inl IndexError)"

text \<open>
  The reductions \<open>mean(0)\<close> and \<open>std(0)\<close> are taken as the mathematical functions: the
  order in which the library accumulates, and so the rounding inside a reduction, is not
  fixed by the source.
\<close>

definition mean :: "real list \<Rightarrow> real option" where
  "mean xs = (if xs = [] then None else Some (sum_list xs / real (length xs)))"

text \<open>\<open>std\<close> is the library's default, the unbiased estimator (divisor \<open>n - 1\<close>).\<close>

definition std :: "real list \<Rightarrow> real option" where
  "std xs =
     (if length xs < 2 then None
      else let m = sum_list xs / real (length xs)
           in Some (sqrt (sum_list (map (\<lambda>x. (x - m)\<^sup>2) xs) / real (length xs - 1))))"

definition add_nan :: "(real \<Rightarrow> real) \<Rightarrow> real option \<Rightarrow> real option \<Rightarrow> real option" where
  "add_nan fl a b = (case (a, b) of (Some x, Some y) \<Rightarrow> Some (fl (x + y)) | _ \<Rightarrow> None)"

definition ge_nan :: "real \<Rightarrow> real option \<Rightarrow> bool" where
  "ge_nan v t = (case t of None \<Rightarrow> False | Some x \<Rightarrow> v \<ge> x)"

definition overlaps_thr_per_gt ::
  "(real \<Rightarrow> real) \<Rightarrow> nat \<Rightarrow> real list list \<Rightarrow> real option list" where
  "overlaps_thr_per_gt fl num_gt cand_ov =
     map (\<lambda>g. add_nan fl (mean (column cand_ov g)) (std (column cand_ov g))) [0..<num_gt]"

definition above_thr :: "(real \<Rightarrow> real) \<Rightarrow> nat \<Rightarrow> real list list \<Rightarrow> bool list list" where
  "above_thr fl num_gt cand_ov =
     map (\<lambda>row. map (\<lambda>g. ge_nan (row ! g) (overlaps_thr_per_gt fl num_gt cand_ov ! g))
                  [0..<num_gt])
       cand_ov"

subsection \<open>Step 6: the centre of a positive lies in its ground truth (lines 87 to 99)\<close>

text \<open>The loop \<open>candidate_idxs[:, gt_idx] += gt_idx * num_bboxes\<close>.\<close>

definition offset_columns :: "nat \<Rightarrow> nat \<Rightarrow> nat list list \<Rightarrow> nat list list" where
  "offset_columns num_bboxes num_gt cands =
     foldl (\<lambda>c gt_idx. map (\<lambda>row. row[gt_idx := row ! gt_idx + gt_idx * num_bboxes]) c)
       cands [0..<num_gt]"

text \<open>\<open>v.view(1, -1).expand(num_gt, num_bboxes).contiguous().view(-1)\<close>\<close>

definition expand_flat :: "nat \<Rightarrow> 'a list \<Rightarrow> 'a list" where
  "expand_flat num_gt v = concat (replicate num_gt v)"

text \<open>
  The four differences are rounded; the Python constant \<open>0.01\<close> is compared as a value of
  the tensor's format.
\<close>

definition is_in_gts ::
  "(real \<Rightarrow> real) \<Rightarrow> bbox list \<Rightarrow> bbox list \<Rightarrow> nat list list \<Rightarrow> error + bool list list" where
  "is_in_gts fl bboxes gt_bboxes cands_off =
     (let num_gt = length gt_bboxes;
          expand_bboxes_cx = expand_flat num_gt (map (center_x fl) bboxes);
          expand_bboxes_cy = expand_flat num_gt (map (center_y fl) bboxes);
          flat = concat cands_off
      in then_do (gather expand_bboxes_cx flat) (\<lambda>cxs.
         then_do (gather expand_bboxes_cy flat) (\<lambda>cys.
         let cxm = view_rows num_gt cxs;
             cym = view_rows num_gt cys;
             l = (\<lambda>r g. fl (cxm ! r ! g - tl_x (gt_bboxes ! g)));
             t = (\<lambda>r g. fl (cym ! r ! g - tl_y (gt_bboxes ! g)));
             r = (\<lambda>r g. fl (br_x (gt_bboxes ! g) - cxm ! r ! g));
             b = (\<lambda>r g. fl (br_y (gt_bboxes ! g) - cym ! r ! g))
         in Inr (map (\<lambda>i. map (\<lambda>g. min (min (min (l i g) (t i g)) (r i g)) (b i g)
                                     > fl (1 / 100))
                            [0..<num_gt])
                   [0..<length cands_off]))))"

subsection \<open>The best ground truth of every box (lines 101 to 108)\<close>

text \<open>\<open>dst[index] = src[index]\<close> on flat tensors.\<close>

definition scatter_from :: "'a list \<Rightarrow> nat list \<Rightarrow> 'a list \<Rightarrow> error + 'a list" where
  "scatter_from src index dst =
     (if list_all (\<lambda>j. j < length dst \<and> j < length src) index
      then Inr (fold (\<lambda>j acc. acc[j := src ! j]) index dst)
      else Inl IndexError)"

text \<open>\<open>row.max()\<close> with the position of the first maximal entry.\<close>

fun max_dim1 :: "real list \<Rightarrow> error + real \<times> nat" where
  "max_dim1 [] = Inl RuntimeError"
| "max_dim1 (x # xs) =
     (let m = fold max xs x in Inr (m, length (takeWhile (\<lambda>v. v \<noteq> m) (x # xs))))"

fun all_ok :: "(error + 'a) list \<Rightarrow> error + 'a list" where
  "all_ok [] = Inr []"
| "all_ok (m # ms) = then_do m (\<lambda>x. then_do (all_ok ms) (\<lambda>xs. Inr (x # xs)))"

subsection \<open>The labels (lines 111 to 117)\<close>

definition assigned_labels :: "nat list \<Rightarrow> int list option \<Rightarrow> error + int list option" where
  "assigned_labels assigned_gt_inds gt_labels =
     (case gt_labels of
        None \<Rightarrow> Inr None
      | Some gl \<Rightarrow>
          (let zeros = replicate (length assigned_gt_inds) 0;
               pos_inds = filter (\<lambda>i. assigned_gt_inds ! i > 0) [0..<length assigned_gt_inds]
           in if length pos_inds > 0
              then then_do (gather gl (map (\<lambda>i. assigned_gt_inds ! i - 1) pos_inds)) (\<lambda>vals.
                     Inr (Some (fold (\<lambda>(i, v) acc. acc[i := v]) (zip pos_inds vals) zeros)))
              else Inr (Some zeros)))"

subsection \<open>\<open>ATSSAssigner.assign\<close>\<close>

text \<open>
  \<open>bbox_overlaps\<close> (\<open>mmdet/core/bbox/geometry.py\<close>) is not among the sources: the overlap
  of two boxes is a parameter. The argument \<open>gt_bboxes_ignore\<close> is never read by the
  source and is left out. The constant \<open>INF\<close> is a value of single precision and is not
  rounded.
\<close>

definition assign ::
  "(real \<Rightarrow> real) \<Rightarrow> nat \<Rightarrow> (bbox \<Rightarrow> bbox \<Rightarrow> real) \<Rightarrow> bbox list \<Rightarrow> nat list \<Rightarrow> bbox list
     \<Rightarrow> int list option \<Rightarrow> error + assign_result" where
  "assign fl topk bbox_overlaps bboxes num_level_bboxes gt_bboxes gt_labels =
     (if length bboxes = 0 \<or> length gt_bboxes = 0 then Inl ValueError
      else
        let inf = 100000000;
            num_gt = length gt_bboxes;
            overlaps = map (\<lambda>b. map (\<lambda>g. bbox_overlaps b g) gt_bboxes) bboxes
        in then_do (candidate_idxs fl topk bboxes num_level_bboxes gt_bboxes) (\<lambda>cands.
           then_do (candidate_overlaps overlaps num_gt cands) (\<lambda>cand_ov.
           let is_pos = above_thr fl num_gt cand_ov;
               num_bboxes = length bboxes;
               cands_off = offset_columns num_bboxes num_gt cands
           in then_do (is_in_gts fl bboxes gt_bboxes cands_off) (\<lambda>in_gts.
              let is_pos = map (\<lambda>r. map (\<lambda>g. is_pos ! r ! g \<and> in_gts ! r ! g) [0..<num_gt])
                             [0..<length cands];
                  overlaps_inf = replicate (num_gt * num_bboxes) (- inf);
                  index = map fst (filter snd (zip (concat cands_off) (concat is_pos)));
                  overlaps_t = concat (map (column overlaps) [0..<num_gt])
              in then_do (scatter_from overlaps_t index overlaps_inf) (\<lambda>overlaps_inf.
                 let by_gt = view_rows num_bboxes overlaps_inf;
                     overlaps_inf = map (\<lambda>i. map (\<lambda>g. by_gt ! g ! i) [0..<num_gt])
                                      [0..<num_bboxes]
                 in then_do (all_ok (map max_dim1 overlaps_inf)) (\<lambda>maxes.
                    let max_ov = map fst maxes;
                        argmax_overlaps = map snd maxes;
                        assigned_gt_inds =
                          map (\<lambda>i. if max_ov ! i \<noteq> - inf then argmax_overlaps ! i + 1 else 0)
                            [0..<num_bboxes]
                    in then_do (assigned_labels assigned_gt_inds gt_labels) (\<lambda>lbls.
                       Inr \<lparr>num_gts = num_gt, gt_inds = assigned_gt_inds,
                            max_overlaps = max_ov, labels = lbls\<rparr>)))))))"

subsection \<open>Notions used to state the properties of the assigner\<close>

text \<open>The rows of the distance matrix that the loop hands to \<open>topk\<close> at level \<open>l\<close>.\<close>

definition level_slice ::
  "(real \<Rightarrow> real) \<Rightarrow> bbox list \<Rightarrow> bbox list \<Rightarrow> nat list \<Rightarrow> nat \<Rightarrow> real list list" where
  "level_slice fl bboxes gts nlb l =
     take (nlb ! l) (drop (sum_list (take l nlb)) (distances fl bboxes gts))"

text \<open>
  One entry of \<open>is_in_gts\<close>: the least of the four computed signed distances \<open>l, t, r, b\<close>
  from the centre of a box to the sides of a ground truth exceeds \<open>0.01\<close>.
\<close>

definition center_gate :: "(real \<Rightarrow> real) \<Rightarrow> bbox \<Rightarrow> bbox \<Rightarrow> bool" where
  "center_gate fl b g \<longleftrightarrow>
     min (min (min (fl (center_x fl b - tl_x g)) (fl (center_y fl b - tl_y g)))
              (fl (br_x g - center_x fl b)))
         (fl (br_y g - center_y fl b)) > fl (1 / 100)"

text \<open>
  The threshold of ground truth \<open>g\<close>: mean plus standard deviation of the overlaps of its
  candidates (column \<open>g\<close> of the candidate matrix).
\<close>

definition gt_thr ::
  "(real \<Rightarrow> real) \<Rightarrow> (bbox \<Rightarrow> bbox \<Rightarrow> real) \<Rightarrow> bbox list \<Rightarrow> nat list list \<Rightarrow> bbox \<Rightarrow> nat
     \<Rightarrow> real option" where
  "gt_thr fl ov bboxes cands gt g =
     (let ious = map (\<lambda>j. ov (bboxes ! j) gt) (column cands g)
      in add_nan fl (mean ious) (std ious))"

text \<open>Box \<open>i\<close> is a retained candidate of ground truth \<open>g\<close>.\<close>

definition positive_for ::
  "(real \<Rightarrow> real) \<Rightarrow> (bbox \<Rightarrow> bbox \<Rightarrow> real) \<Rightarrow> bbox list \<Rightarrow> bbox list \<Rightarrow> nat list list
     \<Rightarrow> nat \<Rightarrow> nat \<Rightarrow> bool" where
  "positive_for fl ov bboxes gts cands i g \<longleftrightarrow>
     g < length gts \<and>
     (\<exists>r<length cands. cands ! r ! g = i) \<and>
     ge_nan (ov (bboxes ! i) (gts ! g)) (gt_thr fl ov bboxes cands (gts ! g) g) \<and>
     center_gate fl (bboxes ! i) (gts ! g)"

text \<open>Every box is background or carries \<open>g + 1\<close> for a ground truth that retained it.\<close>

definition assignment_ok ::
  "(real \<Rightarrow> real) \<Rightarrow> (bbox \<Rightarrow> bbox \<Rightarrow> real) \<Rightarrow> bbox list \<Rightarrow> bbox list \<Rightarrow> nat list list
     \<Rightarrow> nat list \<Rightarrow> bool" where
  "assignment_ok fl ov bboxes gts cands assigned \<longleftrightarrow>
     length assigned = length bboxes \<and>
     (\<forall>i<length bboxes. assigned ! i = 0 \<or>
        (\<exists>g. assigned ! i = Suc g \<and> positive_for fl ov bboxes gts cands i g))"

subsection \<open>A concrete run\<close>

text \<open>
  One ground truth, four boxes on three levels of sizes 2, 1 and 1, \<open>topk = 1\<close>, in single
  precision. The
  overlap used in the run is 1 on identical boxes and 0 otherwise, which is what the
  intersection over union gives on these boxes (they are identical or disjoint).
\<close>

definition ex_gt :: bbox where
  "ex_gt = \<lparr>tl_x = 0, tl_y = 0, br_x = 10, br_y = 10\<rparr>"

definition ex_far :: bbox where
  "ex_far = \<lparr>tl_x = 20, tl_y = 20, br_x = 30, br_y = 30\<rparr>"

definition ex_mid :: bbox where
  "ex_mid = \<lparr>tl_x = 40, tl_y = 40, br_x = 50, br_y = 50\<rparr>"

definition ex_top :: bbox where
  "ex_top = \<lparr>tl_x = 60, tl_y = 60, br_x = 70, br_y = 70\<rparr>"

definition ex_bboxes :: "bbox list" where
  "ex_bboxes = [ex_far, ex_gt, ex_mid, ex_top]"

definition same_box_overlap :: "bbox \<Rightarrow> bbox \<Rightarrow> real" where
  "same_box_overlap b g = (if b = g then 1 else 0)"

definition ex_result :: assign_result where
  "ex_result = \<lparr>num_gts = 1, gt_inds = [0, 1, 0, 0],
                 max_overlaps = [- 100000000, 1, - 100000000, - 100000000],
                 labels = Some [0, 7, 0, 0]\<rparr>"

subsection \<open>A second run, with boxes off the diagonal\<close>








subsection \<open>A third run, where the rounding decides\<close>






section \<open>SemiMixUpDetector (mmdet/models/detectors/semi_mixup.py)\<close>

text \<open>
  The instance containers of the detector hold parallel tensors. \<open>gt_instances\<close> has
  \<open>bboxes\<close> and \<open>labels\<close>, the teacher's \<open>pred_instances\<close> has \<open>scores\<close> as well. A data
  sample carries its \<open>gt_instances\<close> and further fields (the homography matrix and the image
  shape), kept together as \<open>meta\<close>.
\<close>

record instance_data =
  inst_bboxes :: "bbox list"
  inst_labels :: "int list"


record 'm data_sample =
  gt_instances :: instance_data
  meta :: 'm

text \<open>\<open>t[mask]\<close> with a boolean mask: the mask must have the length of the tensor.\<close>

definition mask_select :: "'a list \<Rightarrow> bool list \<Rightarrow> error + 'a list" where
  "mask_select xs flags =
     (if length flags = length xs then Inr (map fst (filter snd (zip xs flags)))
      else Inl IndexError)"

text \<open>
  \<open>gt_instances.new(bboxes=bs, labels=ls)\<close>: the container of the engine library asserts
  that every field it is given has the length of the first one.
\<close>

definition new_instances :: "bbox list \<Rightarrow> int list \<Rightarrow> error + instance_data" where
  "new_instances bs ls =
     (if length ls = length bs then Inr \<lparr>inst_bboxes = bs, inst_labels = ls\<rparr>
      else Inl AssertionError)"

subsection \<open>\<open>update_pseudo_instances\<close> (lines 132 to 140)\<close>



subsection \<open>\<open>filter_pseudo_instances\<close> (lines 117 to 130)\<close>

definition filter_sample :: "real \<times> real \<Rightarrow> 'm data_sample \<Rightarrow> error + 'm data_sample" where
  "filter_sample min_pseudo_bbox_wh data_samples =
     (let pseudo_bboxes = inst_bboxes (gt_instances data_samples);
          instance_num = length pseudo_bboxes
      in if instance_num = 0 then Inr data_samples
         else
           let w = map (\<lambda>b. br_x b - tl_x b) pseudo_bboxes;
               h = map (\<lambda>b. br_y b - tl_y b) pseudo_bboxes;
               valid_mask = map2 (\<lambda>w h. w > fst min_pseudo_bbox_wh \<and> h > snd min_pseudo_bbox_wh) w h
           in then_do (mask_select (inst_bboxes (gt_instances data_samples)) valid_mask) (\<lambda>bs.
              then_do (mask_select (inst_labels (gt_instances data_samples)) valid_mask) (\<lambda>ls.
              then_do (new_instances bs ls) (\<lambda>gi.
              Inr (data_samples\<lparr>gt_instances := gi\<rparr>)))))"

definition filter_pseudo_instances ::
  "real \<times> real \<Rightarrow> 'm data_sample list \<Rightarrow> error + 'm data_sample list" where
  "filter_pseudo_instances min_pseudo_bbox_wh batch_data_samples =
     all_ok (map (filter_sample min_pseudo_bbox_wh) batch_data_samples)"

subsection \<open>\<open>project_pseudo_instances\<close> (lines 142 to 153)\<close>

text \<open>\<open>bbox_project\<close> (\<open>mmdet.core\<close>) is not among the sources: it is a parameter.\<close>

fun project_samples ::
  "(bbox list \<Rightarrow> 'm \<Rightarrow> bbox list) \<Rightarrow> 'm data_sample list \<Rightarrow> 'm data_sample list
     \<Rightarrow> error + 'm data_sample list" where
  "project_samples bbox_project batch_pseudo_instances [] = Inr []"
| "project_samples bbox_project [] (d # ds) = Inr (d # ds)"
| "project_samples bbox_project (pseudo_instances # ps) (d # ds) =
     (let pseudo_bboxes = bbox_project (inst_bboxes (gt_instances pseudo_instances)) (meta d);
          pseudo_labels = inst_labels (gt_instances pseudo_instances)
      in then_do (new_instances pseudo_bboxes pseudo_labels) (\<lambda>gi.
         then_do (project_samples bbox_project ps ds) (\<lambda>rest.
         Inr (d\<lparr>gt_instances := gi\<rparr> # rest))))"

definition project_pseudo_instances ::
  "(bbox list \<Rightarrow> 'm \<Rightarrow> bbox list) \<Rightarrow> real \<times> real \<Rightarrow> 'm data_sample list \<Rightarrow> 'm data_sample list
     \<Rightarrow> error + 'm data_sample list" where
  "project_pseudo_instances bbox_project min_pseudo_bbox_wh batch_pseudo_instances batch_data_samples =
     then_do (project_samples bbox_project batch_pseudo_instances batch_data_samples)
       (filter_pseudo_instances min_pseudo_bbox_wh)"

subsection \<open>\<open>weight\<close> and \<open>pseudo_loss\<close> (lines 92 to 115)\<close>

text \<open>
  A loss dictionary maps names to a tensor or to a sequence of tensors; each tensor is one
  floating point value here. The dictionary is the list of its items in insertion order.
  The losses of the student (\<open>self.student.loss\<close>) are a parameter, and so are the
  rounding \<open>fl\<close> and the largest finite number \<open>fmax\<close> of the format of the tensors.
\<close>

datatype loss_value = Tensor fval | Sequence "fval list"

definition weight ::
  "(real \<Rightarrow> real) \<Rightarrow> real \<Rightarrow> (string \<times> loss_value) list \<Rightarrow> real
     \<Rightarrow> (string \<times> loss_value) list" where
  "weight fl fmax losses w =
     map (\<lambda>(name, loss).
            if sublist ''loss'' name
            then (case loss of
                    Sequence items \<Rightarrow> (name, Sequence (map (\<lambda>item. fmul fl fmax item w) items))
                  | Tensor v \<Rightarrow> (name, Tensor (fmul fl fmax v w)))
            else (name, loss))
       losses"

text \<open>\<open>semi_train_cfg.get('unsup_weight', 1.)\<close>: the configured weight, if any.\<close>

definition pseudo_loss ::
  "(real \<Rightarrow> real) \<Rightarrow> real \<Rightarrow> real option \<Rightarrow> (string \<times> loss_value) list \<Rightarrow> 'm data_sample list
     \<Rightarrow> (string \<times> loss_value) list" where
  "pseudo_loss fl fmax cfg_unsup_weight student_loss batch_data_samples =
     (let pseudo_instances_num =
            sum_list (map (\<lambda>data_samples. length (inst_bboxes (gt_instances data_samples)))
                        batch_data_samples);
          unsup_weight = (if pseudo_instances_num > 0
                          then (case cfg_unsup_weight of Some w \<Rightarrow> w | None \<Rightarrow> 1) else 0)
      in map (\<lambda>(k, v). (''unsup_'' @ k, v)) (weight fl fmax student_loss unsup_weight))"

text \<open>
  What the claim says \<open>weight\<close> does to one value: every floating point number in it is
  multiplied by the weight.
\<close>

definition scaled :: "(real \<Rightarrow> real) \<Rightarrow> real \<Rightarrow> real \<Rightarrow> loss_value \<Rightarrow> loss_value" where
  "scaled fl fmax w loss =
     (case loss of Tensor v \<Rightarrow> Tensor (fmul fl fmax v w)
                 | Sequence items \<Rightarrow> Sequence (map (\<lambda>item. fmul fl fmax item w) items))"

text \<open>
  What multiplying by the weight 0 leaves of a floating point value: 0 of a finite
  number, not-a-number of an infinity and of not-a-number.
\<close>

definition times_zero :: "fval \<Rightarrow> fval" where
  "times_zero v = (case v of Finite x \<Rightarrow> Finite 0 | _ \<Rightarrow> NaN)"

definition zeroed :: "loss_value \<Rightarrow> loss_value" where
  "zeroed loss = (case loss of Tensor v \<Rightarrow> Tensor (times_zero v)
                             | Sequence items \<Rightarrow> Sequence (map times_zero items))"





subsection \<open>Concrete inputs\<close>




text \<open>
  Losses in single precision: \<open>13421773 / 134217728\<close> is the number of the format
  nearest to \<open>0.1\<close>.
\<close>

definition ex_losses :: "(string \<times> loss_value) list" where
  "ex_losses = [(''loss_cls'', Tensor (Finite (13421773 / 134217728))),
                (''acc'', Tensor (Finite 90)),
                (''loss_bbox'', Sequence [Finite 1, PosInf, NaN])]"

section \<open>CascadeRoIHead (mmdet/models/roi_heads/cascade_roi_head.py)\<close>

text \<open>
  The head drives modules that are not among the sources: the assigners and samplers of
  the stages, the region extractors, the box and mask heads, and the tensor library. They
  are the fields of a record, each a function of the stage index where the source indexes
  a module list (the constructor asserts one extractor and one head per stage). A value of
  type \<open>'t\<close> is a tensor or any other object the head only passes on; \<open>'s\<close> is the type of
  a classification score. A loss dictionary of a head is the list of its items.
\<close>

record 't sampling_result =
  res_bboxes :: 't
  res_pos_bboxes :: 't
  res_neg_bboxes :: 't
  res_pos_is_gt :: 't
  res_pos_gt_labels :: 't

record 't img_meta_dict =
  img_shape :: 't
  ori_shape :: 't
  scale_factor :: 't

record ('t, 's) roi_head =
  num_stages :: nat
  stage_loss_weights :: "real list"
  train_cfg :: "'t list"
  test_cfg :: 't
  with_bbox :: bool
  with_mask :: bool
  with_shared_head :: bool
  share_roi_extractor :: bool
  tensor_len :: "'t \<Rightarrow> nat"
  mask_index :: "'t \<Rightarrow> bool list \<Rightarrow> 't"
  cat_tensors :: "'t list \<Rightarrow> 't"
  level_feat :: "'t \<Rightarrow> nat \<Rightarrow> 't"
  bbox2roi :: "'t list \<Rightarrow> 't"
  assigner_assign :: "nat \<Rightarrow> 't \<Rightarrow> 't \<Rightarrow> 't option \<Rightarrow> 't \<Rightarrow> 't"
  sampler_sample :: "nat \<Rightarrow> 't \<Rightarrow> 't \<Rightarrow> 't \<Rightarrow> 't \<Rightarrow> 't list \<Rightarrow> 't sampling_result"
  roi_num_inputs :: "nat \<Rightarrow> nat"
  bbox_roi_extractor :: "nat \<Rightarrow> 't list \<Rightarrow> 't \<Rightarrow> 't"
  shared_head :: "'t \<Rightarrow> 't"
  bbox_head :: "nat \<Rightarrow> 't \<Rightarrow> 's \<times> 't"
  bbox_get_target ::
    "nat \<Rightarrow> 't sampling_result list \<Rightarrow> 't list \<Rightarrow> 't list \<Rightarrow> 't \<Rightarrow> 't \<times> 't list"
  bbox_loss :: "nat \<Rightarrow> 's \<Rightarrow> 't \<Rightarrow> 't \<times> 't list \<Rightarrow> (string \<times> real) list"
  refine_bboxes :: "nat \<Rightarrow> 't \<Rightarrow> 't \<Rightarrow> 't \<Rightarrow> 't list \<Rightarrow> 't img_meta_dict list \<Rightarrow> 't list"
  mask_num_inputs :: "nat \<Rightarrow> nat"
  mask_roi_extractor :: "nat \<Rightarrow> 't list \<Rightarrow> 't \<Rightarrow> 't"
  mask_head :: "nat \<Rightarrow> 't \<Rightarrow> 't"
  mask_get_target :: "nat \<Rightarrow> 't sampling_result list \<Rightarrow> 't option \<Rightarrow> 't \<Rightarrow> 't"
  mask_loss :: "nat \<Rightarrow> 't \<Rightarrow> 't \<Rightarrow> 't \<Rightarrow> (string \<times> real) list"
  num_strides :: "nat \<Rightarrow> nat"
  score_argmax :: "'s \<Rightarrow> 't"
  regress_by_class :: "nat \<Rightarrow> 't \<Rightarrow> 't \<Rightarrow> 't \<Rightarrow> 't img_meta_dict \<Rightarrow> 't"
  get_det_bboxes :: "nat \<Rightarrow> 't \<Rightarrow> 's \<Rightarrow> 't \<Rightarrow> 't \<Rightarrow> 't \<Rightarrow> bool \<Rightarrow> 't \<Rightarrow> 't \<times> 't"

record 't train_inputs =
  in_x :: "'t list"
  in_img_meta :: "'t img_meta_dict list"
  in_proposal_list :: "'t list"
  in_gt_bboxes :: "'t list"
  in_gt_labels :: "'t list"
  in_gt_bboxes_ignore :: "'t option list option"
  in_gt_masks :: "'t option"

text \<open>\<open>xs[i]\<close> for an index that is not negative.\<close>

definition nth_checked :: "'a list \<Rightarrow> nat \<Rightarrow> error + 'a" where
  "nth_checked xs i = (if i < length xs then Inr (xs ! i) else Inl IndexError)"

text \<open>\<open>torch.cat\<close> raises on an empty list.\<close>

definition cat_checked :: "('a list \<Rightarrow> 'b) \<Rightarrow> 'a list \<Rightarrow> error + 'b" where
  "cat_checked cat ts = (if ts = [] then Inl RuntimeError else Inr (cat ts))"

subsection \<open>The keys of the loss dictionary\<close>

text \<open>\<open>'s{}.{}'.format(i, name)\<close>: the stage index is written in decimal.\<close>

definition digit_char :: "nat \<Rightarrow> char" where
  "digit_char d = ''0123456789'' ! d"

function str_nat :: "nat \<Rightarrow> string" where
  "str_nat n = (if n < 10 then [digit_char n] else str_nat (n div 10) @ [digit_char (n mod 10)])"
  by pat_completeness auto
termination
  by (relation "measure (\<lambda>n. n)") auto

declare str_nat.simps [simp del]

definition stage_key :: "nat \<Rightarrow> string \<Rightarrow> string" where
  "stage_key i name = ''s'' @ str_nat i @ ''.'' @ name"

text \<open>\<open>value * lw if 'loss' in name else value\<close>\<close>

definition stage_weighted :: "real \<Rightarrow> string \<Rightarrow> real \<Rightarrow> real" where
  "stage_weighted lw name v = (if sublist ''loss'' name then v * lw else v)"

text \<open>The loop \<open>for name, value in loss.items(): losses['s{}.{}'.format(i, name)] = \<dots>\<close>.\<close>

definition store_losses ::
  "nat \<Rightarrow> real \<Rightarrow> (string \<times> real) list \<Rightarrow> (string \<rightharpoonup> real) \<Rightarrow> (string \<rightharpoonup> real)" where
  "store_losses i lw loss_items losses_dict =
     fold (\<lambda>(name, v) d. d(stage_key i name \<mapsto> stage_weighted lw name v)) loss_items losses_dict"

subsection \<open>One stage of \<open>forward_train\<close> (lines 167 to 261)\<close>

text \<open>
  The calls whose order the specification speaks of: \<open>bbox_assigner.assign\<close> and
  \<open>bbox_sampler.sample\<close> (stage and image), the call of the region extractor, of the box
  head, and of \<open>refine_bboxes\<close> (stage).
\<close>

datatype event = Assign nat nat | Sample nat nat | Extract nat | Predict nat | Refine nat

text \<open>
  What one stage computes. The source keeps these values in local variables; the record
  is a history of them, so that properties of the run can be stated. \<open>so_ran\<close> is false
  when the stage leaves by \<open>continue\<close> at line 202.
\<close>

record ('t, 's) stage_out =
  so_proposals :: "'t list"
  so_lw :: real
  so_sampling :: "'t sampling_result list"
  so_rois :: 't
  so_ran :: bool
  so_pred :: "('s \<times> 't) option"
  so_targets :: "('t \<times> 't list) option"
  so_loss_bbox :: "(string \<times> real) list"
  so_loss_mask :: "(string \<times> real) list"
  so_refined :: "'t list option"
  so_events :: "event list"

text \<open>Lines 182 to 191, for image \<open>j\<close>.\<close>

definition sample_image ::
  "('t, 's) roi_head \<Rightarrow> 't train_inputs \<Rightarrow> nat \<Rightarrow> 't list \<Rightarrow> 't option list \<Rightarrow> nat
     \<Rightarrow> error + 't sampling_result" where
  "sample_image h inp i proposal_list ignore j =
     then_do (nth_checked proposal_list j) (\<lambda>p.
     then_do (nth_checked (in_gt_bboxes inp) j) (\<lambda>gb.
     then_do (nth_checked ignore j) (\<lambda>gi.
     then_do (nth_checked (in_gt_labels inp) j) (\<lambda>gl.
       let assign_result = assigner_assign h i p gb gi gl;
           sampling_result =
             sampler_sample h i assign_result p gb gl
               (map (\<lambda>lvl_feat. level_feat h lvl_feat j) (in_x inp))
       in Inr sampling_result))))"

text \<open>Lines 173 to 191.\<close>

definition sample_images ::
  "('t, 's) roi_head \<Rightarrow> 't train_inputs \<Rightarrow> nat \<Rightarrow> 't list
     \<Rightarrow> error + 't sampling_result list \<times> event list" where
  "sample_images h inp i proposal_list =
     (if with_bbox h \<or> with_mask h
      then
        let num_imgs = length (in_img_meta inp);
            ignore = (case in_gt_bboxes_ignore inp of
                        None \<Rightarrow> replicate num_imgs None | Some l \<Rightarrow> l)
        in then_do (all_ok (map (sample_image h inp i proposal_list ignore) [0..<num_imgs]))
             (\<lambda>sampling_results.
                Inr (sampling_results, concat (map (\<lambda>j. [Assign i j, Sample i j]) [0..<num_imgs])))
      else Inr ([], []))"

text \<open>Lines 218 to 250: the losses of the mask head, none without a mask head.\<close>

definition mask_branch ::
  "('t, 's) roi_head \<Rightarrow> 't train_inputs \<Rightarrow> nat \<Rightarrow> 't \<Rightarrow> 't sampling_result list \<Rightarrow> 't
     \<Rightarrow> error + (string \<times> real) list" where
  "mask_branch h inp i rcnn_train_cfg sampling_results bbox_feats =
     (if with_mask h
      then
        then_do
          (if \<not> share_roi_extractor h
           then
             let pos_rois = bbox2roi h (map res_pos_bboxes sampling_results);
                 mask_feats = mask_roi_extractor h i (take (mask_num_inputs h i) (in_x inp)) pos_rois
             in Inr (if with_shared_head h then shared_head h mask_feats else mask_feats)
           else
             then_do
               (cat_checked concat
                  (concat (map (\<lambda>res. [replicate (tensor_len h (res_pos_bboxes res)) True,
                                        replicate (tensor_len h (res_neg_bboxes res)) False])
                             sampling_results)))
               (\<lambda>pos_inds. Inr (mask_index h bbox_feats pos_inds)))
          (\<lambda>mask_feats.
             let mask_pred = mask_head h i mask_feats;
                 mask_targets = mask_get_target h i sampling_results (in_gt_masks inp) rcnn_train_cfg
             in then_do (cat_checked (cat_tensors h) (map res_pos_gt_labels sampling_results))
                  (\<lambda>pos_labels. Inr (mask_loss h i mask_pred mask_targets pos_labels)))
      else Inr [])"

definition stage_body ::
  "('t, 's) roi_head \<Rightarrow> 't train_inputs \<Rightarrow> nat \<Rightarrow> 't list \<Rightarrow> error + ('t, 's) stage_out" where
  "stage_body h inp i proposal_list =
     then_do (nth_checked (train_cfg h) i) (\<lambda>rcnn_train_cfg.
     then_do (nth_checked (stage_loss_weights h) i) (\<lambda>lw.
     then_do (sample_images h inp i proposal_list) (\<lambda>(sampling_results, sample_events).
       let rois = bbox2roi h (map res_bboxes sampling_results)
       in if tensor_len h rois = 0
          then Inr \<lparr>so_proposals = proposal_list, so_lw = lw, so_sampling = sampling_results,
                    so_rois = rois, so_ran = False, so_pred = None, so_targets = None,
                    so_loss_bbox = [], so_loss_mask = [], so_refined = None,
                    so_events = sample_events\<rparr>
          else
            let bbox_feats = bbox_roi_extractor h i (take (roi_num_inputs h i) (in_x inp)) rois;
                bbox_feats = (if with_shared_head h then shared_head h bbox_feats else bbox_feats);
                (cls_score, bbox_pred) = bbox_head h i bbox_feats;
                bbox_targets = bbox_get_target h i sampling_results (in_gt_bboxes inp) (in_gt_labels inp)
                                 rcnn_train_cfg;
                loss_bbox = bbox_loss h i cls_score bbox_pred bbox_targets
            in then_do (mask_branch h inp i rcnn_train_cfg sampling_results bbox_feats)
                 (\<lambda>loss_mask.
                    let pos_is_gts = map res_pos_is_gt sampling_results;
                        roi_labels = fst bbox_targets
                    in Inr \<lparr>so_proposals = proposal_list, so_lw = lw,
                             so_sampling = sampling_results, so_rois = rois, so_ran = True,
                             so_pred = Some (cls_score, bbox_pred), so_targets = Some bbox_targets,
                             so_loss_bbox = loss_bbox, so_loss_mask = loss_mask,
                             so_refined =
                               (if i + 1 < num_stages h
                                then Some (refine_bboxes h i rois roi_labels bbox_pred pos_is_gts
                                             (in_img_meta inp))
                                else None),
                             so_events = sample_events @ [Extract i, Predict i] @
                               (if i + 1 < num_stages h then [Refine i] else [])\<rparr>))))"

subsection \<open>\<open>forward_train\<close>\<close>

text \<open>
  The state of the loop: the dictionary \<open>losses\<close>, the variable \<open>proposal_list\<close>, and the
  history of the stages run so far (a history variable, not a variable of the source).
\<close>

record ('t, 's) train_state =
  st_losses :: "string \<rightharpoonup> real"
  st_proposal_list :: "'t list"
  st_stages :: "('t, 's) stage_out list"

definition run_stage ::
  "('t, 's) roi_head \<Rightarrow> 't train_inputs \<Rightarrow> nat \<Rightarrow> ('t, 's) train_state
     \<Rightarrow> error + ('t, 's) train_state" where
  "run_stage h inp i st =
     then_do (stage_body h inp i (st_proposal_list st)) (\<lambda>out.
       Inr \<lparr>st_losses = store_losses i (so_lw out) (so_loss_mask out)
                          (store_losses i (so_lw out) (so_loss_bbox out) (st_losses st)),
            st_proposal_list = (case so_refined out of Some refined \<Rightarrow> refined
                                | None \<Rightarrow> st_proposal_list st),
            st_stages = st_stages st @ [out]\<rparr>)"

fun forward_train_loop ::
  "('t, 's) roi_head \<Rightarrow> 't train_inputs \<Rightarrow> nat list \<Rightarrow> ('t, 's) train_state
     \<Rightarrow> error + ('t, 's) train_state" where
  "forward_train_loop h inp [] st = Inr st"
| "forward_train_loop h inp (i # rest) st =
     then_do (run_stage h inp i st) (forward_train_loop h inp rest)"

definition initial_state :: "'t train_inputs \<Rightarrow> ('t, 's) train_state" where
  "initial_state inp =
     \<lparr>st_losses = Map.empty, st_proposal_list = in_proposal_list inp, st_stages = []\<rparr>"

definition forward_train_run ::
  "('t, 's) roi_head \<Rightarrow> 't train_inputs \<Rightarrow> error + ('t, 's) train_state" where
  "forward_train_run h inp = forward_train_loop h inp [0..<num_stages h] (initial_state inp)"

definition forward_train ::
  "('t, 's) roi_head \<Rightarrow> 't train_inputs \<Rightarrow> error + (string \<rightharpoonup> real)" where
  "forward_train h inp = then_do (forward_train_run h inp) (\<lambda>st. Inr (st_losses st))"

text \<open>The calls of a run, in order.\<close>

definition trace :: "('t, 's) train_state \<Rightarrow> event list" where
  "trace st = concat (map so_events (st_stages st))"

subsection \<open>\<open>simple_test\<close>, up to the detections (lines 265 to 304)\<close>

text \<open>
  The body of the loop of lines 279 to 294; the state is \<open>rois\<close>, \<open>ms_scores\<close> and the last
  \<open>bbox_pred\<close> (none before the first stage).
\<close>

definition test_stage ::
  "('t, 's) roi_head \<Rightarrow> 't list \<Rightarrow> 't img_meta_dict \<Rightarrow> 't \<times> 's list \<times> 't option \<Rightarrow> nat
     \<Rightarrow> 't \<times> 's list \<times> 't option" where
  "test_stage h x meta0 state i =
     (let (rois, ms_scores, last_pred) = state;
          bbox_feats = bbox_roi_extractor h i (take (num_strides h i) x) rois;
          bbox_feats = (if with_shared_head h then shared_head h bbox_feats else bbox_feats);
          (cls_score, bbox_pred) = bbox_head h i bbox_feats;
          ms_scores = ms_scores @ [cls_score]
      in if i + 1 < num_stages h
         then let bbox_label = score_argmax h cls_score
              in (regress_by_class h i rois bbox_label bbox_pred meta0, ms_scores, Some bbox_pred)
         else (rois, ms_scores, Some bbox_pred))"

text \<open>
  \<open>sum(ms_scores) / self.num_stages\<close> adds the scores to the integer 0 from left to right
  and divides by the number of stages; with no stage it divides the integer 0 by 0. What
  follows line 304 (\<open>bbox2result\<close> and the mask branch) only processes the detections
  further and is not part of the model.
\<close>

definition simple_test_det ::
  "('t, 's :: real_vector) roi_head \<Rightarrow> 't list \<Rightarrow> 't list \<Rightarrow> 't img_meta_dict list \<Rightarrow> bool
     \<Rightarrow> error + 't \<times> 't" where
  "simple_test_det h x proposals metas rescale =
     then_do (nth_checked metas 0) (\<lambda>meta0.
       let rcnn_test_cfg = test_cfg h;
           rois = bbox2roi h proposals;
           (rois, ms_scores, last_pred) =
             foldl (test_stage h x meta0) (rois, [], None) [0..<num_stages h]
       in if num_stages h = 0 then Inl ZeroDivisionError
          else
            let cls_score = foldl (+) 0 ms_scores /\<^sub>R real (num_stages h)
            in (case last_pred of
                  None \<Rightarrow> Inl RuntimeError
                | Some bbox_pred \<Rightarrow>
                    Inr (get_det_bboxes h (num_stages h - 1) rois cls_score bbox_pred
                           (img_shape meta0) (scale_factor meta0) rescale rcnn_test_cfg)))"

text \<open>
  In the words of the claim: the regions that stage \<open>i\<close> scores are the proposals for the
  first stage and, for a later stage, the regions of the stage before, regressed by the
  prediction of that stage for its best class.
\<close>

definition stage_prediction :: "('t, 's) roi_head \<Rightarrow> 't list \<Rightarrow> nat \<Rightarrow> 't \<Rightarrow> 's \<times> 't" where
  "stage_prediction h x i rois =
     (let feats = bbox_roi_extractor h i (take (num_strides h i) x) rois
      in bbox_head h i (if with_shared_head h then shared_head h feats else feats))"

fun stage_rois :: "('t, 's) roi_head \<Rightarrow> 't list \<Rightarrow> 't list \<Rightarrow> 't img_meta_dict \<Rightarrow> nat \<Rightarrow> 't" where
  "stage_rois h x proposals meta0 0 = bbox2roi h proposals"
| "stage_rois h x proposals meta0 (Suc i) =
     (let rois = stage_rois h x proposals meta0 i;
          (cls_score, bbox_pred) = stage_prediction h x i rois
      in regress_by_class h i rois (score_argmax h cls_score) bbox_pred meta0)"

definition stage_score :: "('t, 's) roi_head \<Rightarrow> 't list \<Rightarrow> 't list \<Rightarrow> 't img_meta_dict \<Rightarrow> nat \<Rightarrow> 's" where
  "stage_score h x proposals meta0 i =
     fst (stage_prediction h x i (stage_rois h x proposals meta0 i))"

subsection \<open>The order of the calls, in the words of the specification\<close>

text \<open>Assignment and sampling of every image of a stage.\<close>

definition sampling_events :: "nat \<Rightarrow> nat \<Rightarrow> event list" where
  "sampling_events i num_imgs = concat (map (\<lambda>j. [Assign i j, Sample i j]) [0..<num_imgs])"

text \<open>
  A stage as the specification describes it: assign, sample, extract, predict and, except
  in the last stage, refine.
\<close>

definition full_stage_events :: "nat \<Rightarrow> nat \<Rightarrow> nat \<Rightarrow> event list" where
  "full_stage_events n num_imgs i =
     sampling_events i num_imgs @ [Extract i, Predict i] @ (if i + 1 < n then [Refine i] else [])"

definition claimed_trace :: "nat \<Rightarrow> nat \<Rightarrow> event list" where
  "claimed_trace n num_imgs = concat (map (full_stage_events n num_imgs) [0..<n])"

text \<open>The last item written under a name by a stage: the mask head's, if both heads use it.\<close>

definition stage_entry :: "('t, 's) stage_out \<Rightarrow> string \<Rightarrow> real option" where
  "stage_entry out name = map_of (rev (so_loss_bbox out @ so_loss_mask out)) name"

section \<open>Properties of the single precision rounding\<close>

lemma round_even_of_int [simp]: "round_even (of_int m) = m"
  by (simp add: round_even_def)

lemma round_even_numeral [simp]: "round_even (numeral n) = numeral n"
  using round_even_of_int[of "numeral n"] by (simp del: round_even_of_int)

lemma round_even_bounds: "\<lfloor>y\<rfloor> \<le> round_even y \<and> round_even y \<le> \<lfloor>y\<rfloor> + 1"
  by (simp add: round_even_def Let_def)

lemma round_even_mono:
  assumes "x \<le> y"
  shows "round_even x \<le> round_even y"
proof -
  have fg: "\<lfloor>x\<rfloor> \<le> \<lfloor>y\<rfloor>" using assms by (rule floor_mono)
  show ?thesis
  proof (cases "\<lfloor>x\<rfloor> = \<lfloor>y\<rfloor>")
    case True
    with assms show ?thesis by (auto simp: round_even_def Let_def)
  next
    case False
    with fg have "\<lfloor>x\<rfloor> + 1 \<le> \<lfloor>y\<rfloor>" by simp
    with round_even_bounds[of x] round_even_bounds[of y] show ?thesis by linarith
  qed
qed

lemma binade:
  assumes "x \<noteq> 0"
  shows "2 powr of_int \<lfloor>log 2 \<bar>x\<bar>\<rfloor> \<le> \<bar>x\<bar>" "\<bar>x\<bar> < 2 powr of_int (\<lfloor>log 2 \<bar>x\<bar>\<rfloor> + 1)"
proof -
  have p: "0 < \<bar>x\<bar>" using assms by simp
  have "\<lfloor>log 2 \<bar>x\<bar>\<rfloor> = \<lfloor>log 2 \<bar>x\<bar>\<rfloor> \<longleftrightarrow>
        2 powr of_int \<lfloor>log 2 \<bar>x\<bar>\<rfloor> \<le> \<bar>x\<bar> \<and> \<bar>x\<bar> < 2 powr of_int (\<lfloor>log 2 \<bar>x\<bar>\<rfloor> + 1)"
    by (rule floor_log_eq_powr_iff[OF p]) simp
  then show "2 powr of_int \<lfloor>log 2 \<bar>x\<bar>\<rfloor> \<le> \<bar>x\<bar>" "\<bar>x\<bar> < 2 powr of_int (\<lfloor>log 2 \<bar>x\<bar>\<rfloor> + 1)"
    by blast+
qed

lemma binade_unique:
  assumes "2 powr of_int e \<le> \<bar>x\<bar>" "\<bar>x\<bar> < 2 powr of_int (e + 1)"
  shows "\<lfloor>log 2 \<bar>x\<bar>\<rfloor> = e"
proof -
  have "0 < (2::real) powr of_int e" by simp
  with assms(1) have p: "0 < \<bar>x\<bar>" by linarith
  have "\<lfloor>log 2 \<bar>x\<bar>\<rfloor> = e \<longleftrightarrow> 2 powr of_int e \<le> \<bar>x\<bar> \<and> \<bar>x\<bar> < 2 powr of_int (e + 1)"
    by (rule floor_log_eq_powr_iff[OF p]) simp
  with assms show ?thesis by blast
qed

lemma two_powr_shift: "(2::real) powr of_int (e - 23) * 8388608 = 2 powr of_int e"
proof -
  have "(2::real) powr of_int (e - 23) * 2 powr of_int 23 = 2 powr (of_int (e - 23) + of_int 23)"
    by (simp only: powr_add)
  also have "of_int (e - 23) + of_int 23 = (of_int e :: real)" by simp
  finally show ?thesis by simp
qed

lemma two_powr_Suc: "(2::real) powr of_int (e + 1) = 2 * 2 powr of_int e"
  by (simp add: powr_add)

text \<open>The magnitude of the rounded value stays in the closed binade of the argument.\<close>

lemma rounded_magnitude:
  assumes "x \<noteq> 0"
  defines "e \<equiv> \<lfloor>log 2 \<bar>x\<bar>\<rfloor>"
  defines "u \<equiv> 2 powr of_int (e - 23)"
  shows "2 powr of_int e \<le> u * of_int (round_even (\<bar>x\<bar> / u))"
    and "u * of_int (round_even (\<bar>x\<bar> / u)) \<le> 2 powr of_int (e + 1)"
proof -
  have u: "0 < u" by (simp add: u_def)
  have ue: "u * 8388608 = 2 powr of_int e" unfolding u_def by (rule two_powr_shift)
  from binade[OF assms(1)] have lo: "2 powr of_int e \<le> \<bar>x\<bar>" and hi: "\<bar>x\<bar> < 2 powr of_int (e + 1)"
    by (simp_all add: e_def)
  from lo ue u have "8388608 \<le> \<bar>x\<bar> / u" by (simp add: pos_le_divide_eq mult.commute)
  then have "round_even (of_int 8388608) \<le> round_even (\<bar>x\<bar> / u)"
    by (intro round_even_mono) simp
  then have "(8388608::real) \<le> of_int (round_even (\<bar>x\<bar> / u))" by simp
  with u have "u * 8388608 \<le> u * of_int (round_even (\<bar>x\<bar> / u))" by simp
  with ue show "2 powr of_int e \<le> u * of_int (round_even (\<bar>x\<bar> / u))" by simp
  have "2 powr of_int (e + 1) = u * 16777216"
    unfolding two_powr_Suc ue[symmetric] by simp
  with hi have "\<bar>x\<bar> \<le> u * 16777216" by simp
  with u have "\<bar>x\<bar> / u \<le> 16777216"
    by (simp add: pos_divide_le_eq mult.commute)
  then have "round_even (\<bar>x\<bar> / u) \<le> round_even (of_int 16777216)"
    by (intro round_even_mono) simp
  then have "of_int (round_even (\<bar>x\<bar> / u)) \<le> (16777216::real)" by simp
  with u have "u * of_int (round_even (\<bar>x\<bar> / u)) \<le> u * 16777216" by simp
  with \<open>2 powr of_int (e + 1) = u * 16777216\<close>
  show "u * of_int (round_even (\<bar>x\<bar> / u)) \<le> 2 powr of_int (e + 1)"
    by simp
qed

lemma fl32_zero [simp]: "fl32 0 = 0"
  by (simp add: fl32_def)

lemma fl32_minus: "fl32 (- x) = - fl32 x"
  by (simp add: fl32_def Let_def sgn_real_def)

lemma fl32_pos_eq:
  assumes "0 < x"
  shows "fl32 x = 2 powr of_int (\<lfloor>log 2 x\<rfloor> - 23)
                    * of_int (round_even (x / 2 powr of_int (\<lfloor>log 2 x\<rfloor> - 23)))"
  using assms by (simp add: fl32_def Let_def)

lemma fl32_pos_bounds:
  assumes "0 < x"
  shows "2 powr of_int \<lfloor>log 2 x\<rfloor> \<le> fl32 x" "fl32 x \<le> 2 powr of_int (\<lfloor>log 2 x\<rfloor> + 1)"
proof -
  from assms have nz: "x \<noteq> 0" and ab: "\<bar>x\<bar> = x" by simp_all
  from rounded_magnitude[OF nz] show "2 powr of_int \<lfloor>log 2 x\<rfloor> \<le> fl32 x"
    "fl32 x \<le> 2 powr of_int (\<lfloor>log 2 x\<rfloor> + 1)"
    unfolding fl32_pos_eq[OF assms] ab by simp_all
qed

lemma fl32_pos: "0 < x \<Longrightarrow> 0 < fl32 x"
proof -
  assume "0 < x"
  from fl32_pos_bounds(1)[OF this] have "2 powr of_int \<lfloor>log 2 x\<rfloor> \<le> fl32 x" .
  moreover have "0 < (2::real) powr of_int \<lfloor>log 2 x\<rfloor>" by simp
  ultimately show ?thesis by linarith
qed

lemma fl32_mono_pos:
  assumes "0 < x" "x \<le> y"
  shows "fl32 x \<le> fl32 y"
proof -
  from assms have y: "0 < y" by simp
  have "log 2 x \<le> log 2 y" using assms y by simp
  then have ee: "\<lfloor>log 2 x\<rfloor> \<le> \<lfloor>log 2 y\<rfloor>" by (rule floor_mono)
  show ?thesis
  proof (cases "\<lfloor>log 2 x\<rfloor> = \<lfloor>log 2 y\<rfloor>")
    case True
    define u where "u = (2::real) powr of_int (\<lfloor>log 2 y\<rfloor> - 23)"
    have u: "0 < u" by (simp add: u_def)
    from assms(2) u have "x / u \<le> y / u" by (simp add: divide_right_mono)
    then have "round_even (x / u) \<le> round_even (y / u)" by (rule round_even_mono)
    then have "(of_int (round_even (x / u)) :: real) \<le> of_int (round_even (y / u))" by simp
    with u have "u * of_int (round_even (x / u)) \<le> u * of_int (round_even (y / u))" by simp
    then show ?thesis
      unfolding fl32_pos_eq[OF assms(1)] fl32_pos_eq[OF y] True u_def .
  next
    case False
    with ee have "\<lfloor>log 2 x\<rfloor> + 1 \<le> \<lfloor>log 2 y\<rfloor>" by simp
    then have "(2::real) powr of_int (\<lfloor>log 2 x\<rfloor> + 1) \<le> 2 powr of_int \<lfloor>log 2 y\<rfloor>"
      by (simp del: of_int_add)
    with fl32_pos_bounds(2)[OF assms(1)] fl32_pos_bounds(1)[OF y] show ?thesis by linarith
  qed
qed

lemma fl32_mono:
  assumes "x \<le> y"
  shows "fl32 x \<le> fl32 y"
proof -
  consider "0 < x" | "x = 0" | "x < 0" "0 \<le> y" | "x < 0" "y < 0" by linarith
  then show ?thesis
  proof cases
    case 1
    then show ?thesis using assms by (rule fl32_mono_pos)
  next
    case 2
    show ?thesis
    proof (cases "y = 0")
      case True
      with 2 show ?thesis by simp
    next
      case False
      with 2 assms have "0 < y" by simp
      from fl32_pos[OF this] 2 show ?thesis by simp
    qed
  next
    case 3
    from 3(1) have "0 < fl32 (- x)" by (intro fl32_pos) simp
    then have a: "fl32 x < 0" by (simp add: fl32_minus)
    have "0 \<le> fl32 y"
    proof (cases "y = 0")
      case True
      then show ?thesis by simp
    next
      case False
      with 3(2) have "0 < y" by simp
      from fl32_pos[OF this] show ?thesis by simp
    qed
    with a show ?thesis by linarith
  next
    case 4
    from 4 assms have "0 < - y" "- y \<le> - x" by simp_all
    from fl32_mono_pos[OF this] show ?thesis by (simp add: fl32_minus)
  qed
qed

text \<open>A number with a significand of at most 24 bits is a value of the format.\<close>

lemma fl32_dyadic_pos:
  assumes k: "0 < k" "k < 16777216"
  shows "fl32 (of_int k * 2 powr of_int n) = of_int k * 2 powr of_int n"
proof -
  define x where "x = of_int k * (2::real) powr of_int n"
  have x: "0 < x" using k by (simp add: x_def)
  define e where "e = \<lfloor>log 2 x\<rfloor>"
  from binade(1)[of x] x have lo: "2 powr of_int e \<le> x" by (simp add: e_def)
  have "x < 16777216 * 2 powr of_int n" using k by (simp add: x_def)
  also have "\<dots> = 2 powr of_int (24 + n)"
    by (simp only: of_int_add powr_add) simp
  finally have "2 powr of_int e < (2::real) powr of_int (24 + n)" using lo by linarith
  then have en: "e < 24 + n" by (simp del: of_int_add)
  define m where "m = nat (n + 23 - e)"
  from en have m: "int m = n + 23 - e" by (simp add: m_def)
  have shift: "(2::real) powr of_int n = 2 powr of_int (e - 23) * 2 ^ m"
  proof -
    have "(2::real) powr of_int (e - 23) * 2 powr of_int (int m) = 2 powr (of_int (e - 23) + of_int (int m))"
      by (simp only: powr_add)
    also have "of_int (e - 23) + of_int (int m) = (of_int n :: real)" unfolding m by simp
    finally show ?thesis by (simp add: powr_realpow)
  qed
  have "x / 2 powr of_int (e - 23) = of_int (k * 2 ^ m)"
    unfolding x_def shift by simp
  then have "fl32 x = 2 powr of_int (e - 23) * of_int (k * 2 ^ m)"
    unfolding fl32_pos_eq[OF x] e_def[symmetric] by (simp only: round_even_of_int)
  also have "\<dots> = x" unfolding x_def shift by simp
  finally show ?thesis unfolding x_def .
qed

lemma fl32_dyadic:
  assumes "\<bar>k\<bar> < 16777216"
  shows "fl32 (of_int k * 2 powr of_int n) = of_int k * 2 powr of_int n"
proof -
  consider "k = 0" | "0 < k" | "k < 0" by linarith
  then show ?thesis
  proof cases
    case 1
    then show ?thesis by simp
  next
    case 2
    with assms show ?thesis by (intro fl32_dyadic_pos) simp_all
  next
    case 3
    with assms have "0 < - k" "- k < 16777216" by simp_all
    from fl32_dyadic_pos[OF this, of n] show ?thesis
      using fl32_minus[of "of_int k * 2 powr of_int n"] by simp
  qed
qed

lemma fl32_of_int: "\<bar>k\<bar> < 16777216 \<Longrightarrow> fl32 (of_int k) = of_int k"
  using fl32_dyadic[of k 0] by simp

lemma fl32_in_binade:
  assumes "2 powr of_int e \<le> \<bar>x\<bar>" "\<bar>x\<bar> < 2 powr of_int (e + 1)"
  shows "fl32 x = sgn x * (2 powr of_int (e - 23)
                    * of_int (round_even (\<bar>x\<bar> / 2 powr of_int (e - 23))))"
proof -
  have "0 < (2::real) powr of_int e" by simp
  with assms(1) have "x \<noteq> 0" by auto
  then show ?thesis unfolding fl32_def Let_def binade_unique[OF assms] by simp
qed

lemma two_powr_int_pos: "(2::real) powr of_int (int n) = 2 ^ n"
  by (simp add: powr_realpow)

lemma two_powr_int_neg: "(2::real) powr of_int (- int n) = 1 / 2 ^ n"
  by (simp add: powr_minus powr_realpow divide_inverse)

lemma fl32_eval:
  assumes "p = 2 powr of_int e" "p \<le> \<bar>x\<bar>" "\<bar>x\<bar> < 2 * p" "u = p / 8388608"
  shows "fl32 x = sgn x * (u * of_int (round_even (\<bar>x\<bar> / u)))"
proof -
  have u: "u = 2 powr of_int (e - 23)"
    unfolding assms(4) assms(1) two_powr_shift[of e, symmetric] by simp
  show ?thesis unfolding u
    by (rule fl32_in_binade) (use assms in \<open>simp_all only: two_powr_Suc\<close>)
qed

lemma fl32_eval_small:
  assumes "p = 1 / 2 ^ n" "p \<le> \<bar>x\<bar>" "\<bar>x\<bar> < 2 * p" "u = p / 8388608"
  shows "fl32 x = sgn x * (u * of_int (round_even (\<bar>x\<bar> / u)))"
  using assms(1) by (intro fl32_eval[where e = "- int n", OF _ assms(2,3,4)])
    (simp only: two_powr_int_neg)


lemma round_even_eval:
  assumes "of_int f \<le> y" "y < of_int f + 1 / 2"
  shows "round_even y = f"
proof -
  from assms have "\<lfloor>y\<rfloor> = f" by (simp add: floor_eq_iff)
  with assms show ?thesis by (simp add: round_even_def)
qed

lemma fl32_hundredth: "fl32 (1 / 100) = 5368709 / 536870912"
proof -
  have r: "round_even (268435456 / 25) = 10737418"
    by (rule round_even_eval) simp_all
  have "fl32 (1 / 100) = sgn (1 / 100 :: real) * (1 / 1073741824
                    * of_int (round_even (\<bar>1 / 100\<bar> / (1 / 1073741824))))"
    by (rule fl32_eval_small[where n = 7 and p = "1 / 128"]) simp_all
  also have "\<dots> = 5368709 / 536870912" by (simp add: r)
  finally show ?thesis .
qed



lemma fl32_numeral: "numeral n < (16777216::int) \<Longrightarrow> fl32 (numeral n) = numeral n"
  using fl32_of_int[of "numeral n"] by simp

lemma fl32_one [simp]: "fl32 1 = 1"
  using fl32_of_int[of 1] by simp

lemma fl32_half: "numeral n < (16777216::int) \<Longrightarrow> fl32 (numeral n / 2) = numeral n / 2"
  using fl32_dyadic[of "numeral n" "- 1"] two_powr_int_neg[of 1] by simp

lemma fl32_neg_numeral:
  "numeral n < (16777216::int) \<Longrightarrow> fl32 (- numeral n) = - numeral n"
  by (simp add: fl32_minus fl32_numeral)

lemma fl32_le_zero_iff: "fl32 x \<le> 0 \<longleftrightarrow> x \<le> 0"
proof
  assume "fl32 x \<le> 0"
  show "x \<le> 0"
  proof (rule ccontr)
    assume "\<not> x \<le> 0"
    then have "0 < x" by simp
    from fl32_pos[OF this] \<open>fl32 x \<le> 0\<close> show False by simp
  qed
next
  assume "x \<le> 0"
  from fl32_mono[OF this] show "fl32 x \<le> 0" by simp
qed

lemma fl32_le_one: "x \<le> 1 \<Longrightarrow> fl32 x \<le> 1"
  using fl32_mono[of x 1] by simp







lemma round_even_eval_up:
  assumes "of_int f + 1 / 2 < y" "y < of_int f + 1"
  shows "round_even y = f + 1"
proof -
  from assms have "\<lfloor>y\<rfloor> = f" by (simp add: floor_eq_iff)
  with assms show ?thesis by (simp add: round_even_def)
qed

lemma fl32_three_tenths: "fl32 (40265319 / 134217728) = 5033165 / 16777216"
proof -
  have r: "round_even (40265319 / 4) = 10066330"
    using round_even_eval_up[of 10066329 "40265319 / 4"] by simp
  have "fl32 (40265319 / 134217728) = sgn (40265319 / 134217728 :: real) * (1 / 33554432
                    * of_int (round_even (\<bar>40265319 / 134217728\<bar> / (1 / 33554432))))"
    by (rule fl32_eval_small[where n = 2 and p = "1 / 4"]) simp_all
  also have "\<dots> = 5033165 / 16777216" by (simp add: r)
  finally show ?thesis .
qed

lemma fl32_overflow: "fmax32 < fl32 (fmax32 * 3)"
proof -
  have "fl32 (of_int 1 * 2 powr of_int (int 128)) = of_int 1 * 2 powr of_int (int 128)"
    by (rule fl32_dyadic) simp
  then have a: "fl32 (2 ^ 128) = 2 ^ 128" by (simp only: two_powr_int_pos) simp
  have "(2::real) ^ 128 \<le> fmax32 * 3" by (simp add: fmax32_def)
  from fl32_mono[OF this] a have "(2::real) ^ 128 \<le> fl32 (fmax32 * 3)" by simp
  moreover have "fmax32 < (2::real) ^ 128" by (simp add: fmax32_def)
  ultimately show ?thesis by linarith
qed

lemmas fl32_values = fl32_numeral fl32_neg_numeral fl32_half fl32_hundredth

section \<open>Properties of the assigner\<close>

subsection \<open>Auxiliary facts on lists and matrices\<close>

lemma then_do_Inr [simp]: "then_do (Inr x) f = f x"
  by (simp add: then_do_def)

lemma then_do_Inl [simp]: "then_do (Inl e) f = Inl e"
  by (simp add: then_do_def)

lemma then_do_eq_Inr: "then_do m f = Inr y \<longleftrightarrow> (\<exists>x. m = Inr x \<and> f x = Inr y)"
  by (cases m) auto

lemma gather_eq_Inr:
  "gather xs idxs = Inr ys \<longleftrightarrow> (\<forall>i\<in>set idxs. i < length xs) \<and> ys = map (\<lambda>i. xs ! i) idxs"
  by (auto simp: gather_def list_all_iff)

lemma view_rows_Nil [simp]: "view_rows c [] = []"
  by (simp add: view_rows.simps)

lemma view_rows_Cons [simp]:
  "0 < c \<Longrightarrow> view_rows c (x # xs) = take c (x # xs) # view_rows c (drop c (x # xs))"
  by (subst view_rows.simps) simp

lemma view_rows_append:
  assumes "0 < c" "length row = c"
  shows "view_rows c (row @ rest) = row # view_rows c rest"
proof -
  from assms have "row @ rest \<noteq> []" by auto
  with assms show ?thesis by (subst view_rows.simps) simp
qed

lemma view_rows_concat:
  "0 < c \<Longrightarrow> \<forall>row\<in>set m. length row = c \<Longrightarrow> view_rows c (concat m) = m"
  by (induction m) (simp_all add: view_rows_append)

lemma concat_nth_uniform:
  "\<forall>m\<in>set ms. length m = k \<Longrightarrow> l < length ms \<Longrightarrow> r < k \<Longrightarrow> concat ms ! (l * k + r) = ms ! l ! r"
proof (induction ms arbitrary: l)
  case Nil
  then show ?case by simp
next
  case (Cons m ms)
  show ?case
  proof (cases l)
    case 0
    with Cons.prems show ?thesis by (simp add: nth_append)
  next
    case (Suc l')
    with Cons.prems have "concat ms ! (l' * k + r) = ms ! l' ! r"
      by (intro Cons.IH) auto
    with Suc Cons.prems show ?thesis by (simp add: nth_append)
  qed
qed

lemma length_concat_uniform:
  "\<forall>m\<in>set ms. length m = k \<Longrightarrow> length (concat ms) = length ms * k"
  by (induction ms) auto

lemma view_rows_length:
  "0 < c \<Longrightarrow> length xs = m * c \<Longrightarrow> length (view_rows c xs) = m"
proof (induction m arbitrary: xs)
  case 0
  then show ?case by simp
next
  case (Suc m)
  then have ne: "xs \<noteq> []" by auto
  from Suc.prems have "length (view_rows c (drop c xs)) = m"
    by (intro Suc.IH) auto
  with ne Suc.prems show ?case by (subst view_rows.simps) simp
qed

lemma view_rows_nth:
  "0 < c \<Longrightarrow> length xs = m * c \<Longrightarrow> g < m \<Longrightarrow> i < c \<Longrightarrow> view_rows c xs ! g ! i = xs ! (g * c + i)"
proof (induction m arbitrary: xs g)
  case 0
  then show ?case by simp
next
  case (Suc m)
  then have ne: "xs \<noteq> []" by auto
  have unf: "view_rows c xs = take c xs # view_rows c (drop c xs)"
    using ne Suc.prems by (subst view_rows.simps) simp
  show ?case
  proof (cases g)
    case 0
    with unf Suc.prems show ?thesis by simp
  next
    case (Suc g')
    from Suc Suc.prems have "view_rows c (drop c xs) ! g' ! i = drop c xs ! (g' * c + i)"
      by (intro Suc.IH) auto
    then show ?thesis using unf Suc Suc.prems by (simp add: add.assoc)
  qed
qed

subsection \<open>Selection of the smallest entries\<close>

lemma smallest_idxs_length: "k \<le> length ds \<Longrightarrow> length (smallest_idxs k ds) = k"
  by (simp add: smallest_idxs_def)

lemma smallest_idxs_bound: "i \<in> set (smallest_idxs k ds) \<Longrightarrow> i < length ds"
  by (auto simp: smallest_idxs_def dest!: in_set_takeD)




lemma topk_dim0_eq_Inr:
  "topk_dim0 k ng m = Inr t \<longleftrightarrow>
     k \<le> length m \<and> t = map (\<lambda>r. map (\<lambda>g. smallest_idxs k (column m g) ! r) [0..<ng]) [0..<k]"
  by (auto simp: topk_dim0_def)

lemma level_candidates_Inr:
  "level_candidates k ng dmat s levels = Inr ms \<Longrightarrow>
     length ms = length levels \<and>
     (\<forall>l<length levels.
        k \<le> length (take (levels ! l) (drop (s + sum_list (take l levels)) dmat)) \<and>
        ms ! l = map (\<lambda>r. map (\<lambda>g. smallest_idxs k
                     (column (take (levels ! l) (drop (s + sum_list (take l levels)) dmat)) g) ! r
                     + (s + sum_list (take l levels))) [0..<ng]) [0..<k])"
proof (induction levels arbitrary: s ms)
  case Nil
  then show ?case by simp
next
  case (Cons c cs)
  from Cons.prems obtain t more where
    t: "topk_dim0 k ng (take c (drop s dmat)) = Inr t" and
    more: "level_candidates k ng dmat (s + c) cs = Inr more" and
    ms: "ms = map (map (\<lambda>i. i + s)) t # more"
    by (auto simp: then_do_eq_Inr Let_def)
  note ih = Cons.IH[OF more]
  show ?case
  proof (intro conjI allI impI)
    show "length ms = length (c # cs)" using ih ms by simp
  next
    fix l assume l: "l < length (c # cs)"
    show "k \<le> length (take ((c # cs) ! l) (drop (s + sum_list (take l (c # cs))) dmat))"
    proof (cases l)
      case 0
      with t show ?thesis by (simp add: topk_dim0_eq_Inr)
    next
      case (Suc l')
      with l ih show ?thesis by (simp add: add.assoc)
    qed
  next
    fix l assume l: "l < length (c # cs)"
    show "ms ! l = map (\<lambda>r. map (\<lambda>g. smallest_idxs k
                     (column (take ((c # cs) ! l) (drop (s + sum_list (take l (c # cs))) dmat)) g) ! r
                     + (s + sum_list (take l (c # cs)))) [0..<ng]) [0..<k]"
    proof (cases l)
      case 0
      with t ms show ?thesis by (simp add: topk_dim0_eq_Inr comp_def)
    next
      case (Suc l')
      with l ih ms show ?thesis by (simp add: add.assoc)
    qed
  qed
qed

lemma level_candidates_ok:
  "\<forall>c\<in>set levels. k \<le> c \<Longrightarrow> s + sum_list levels \<le> length dmat \<Longrightarrow>
     \<exists>ms. level_candidates k ng dmat s levels = Inr ms"
proof (induction levels arbitrary: s)
  case Nil
  then show ?case by simp
next
  case (Cons c cs)
  then have "k \<le> length (take c (drop s dmat))" by simp
  then obtain t where t: "topk_dim0 k ng (take c (drop s dmat)) = Inr t"
    by (simp add: topk_dim0_eq_Inr)
  from Cons.prems obtain more where "level_candidates k ng dmat (s + c) cs = Inr more"
    using Cons.IH[of "s + c"] by (auto simp: add.assoc)
  with t show ?case by (simp add: Let_def)
qed

lemma level_candidates_short:
  "\<exists>c\<in>set levels. c < k \<Longrightarrow> level_candidates k ng dmat s levels = Inl RuntimeError"
proof (induction levels arbitrary: s)
  case Nil
  then show ?case by simp
next
  case (Cons c cs)
  show ?case
  proof (cases "c < k")
    case True
    then have "topk_dim0 k ng (take c (drop s dmat)) = Inl RuntimeError"
      by (simp add: topk_dim0_def)
    then show ?thesis by (simp add: Let_def)
  next
    case False
    with Cons.prems have "\<exists>c\<in>set cs. c < k" by auto
    then have "level_candidates k ng dmat (s + c) cs = Inl RuntimeError" by (rule Cons.IH)
    then show ?thesis
      by (cases "topk_dim0 k ng (take c (drop s dmat))") (auto simp: Let_def topk_dim0_def split: if_splits)
  qed
qed

lemma level_slice_length:
  "length (level_slice fl bboxes gts nlb l) = min (nlb ! l) (length bboxes - sum_list (take l nlb))"
  by (simp add: level_slice_def distances_def)


lemma candidate_idxs_rows:
  assumes "candidate_idxs fl topk bboxes nlb gts = Inr cands"
  shows "nlb \<noteq> []"
    and "length cands = length nlb * topk"
    and "\<And>l. l < length nlb \<Longrightarrow> topk \<le> length (level_slice fl bboxes gts nlb l)"
    and "\<And>l r. l < length nlb \<Longrightarrow> r < topk \<Longrightarrow>
           cands ! (l * topk + r) =
             map (\<lambda>g. smallest_idxs topk (column (level_slice fl bboxes gts nlb l) g) ! r
                        + sum_list (take l nlb)) [0..<length gts]"
proof -
  from assms obtain ms where
    ms: "level_candidates topk (length gts) (distances fl bboxes gts) 0 nlb = Inr ms" and
    ne: "ms \<noteq> []" and cands: "cands = concat ms"
    by (auto simp: candidate_idxs_def then_do_eq_Inr cat_dim0_def split: if_splits)
  note lc = level_candidates_Inr[OF ms]
  from lc ne show "nlb \<noteq> []" by auto
  have len: "\<forall>m\<in>set ms. length m = topk"
  proof
    fix m assume "m \<in> set ms"
    then obtain l where "l < length ms" "m = ms ! l" by (auto simp: in_set_conv_nth)
    with lc show "length m = topk" by simp
  qed
  then show "length cands = length nlb * topk"
    using lc cands length_concat_uniform[OF len] by simp
  show "topk \<le> length (level_slice fl bboxes gts nlb l)" if "l < length nlb" for l
    using lc that by (simp add: level_slice_def)
  show "cands ! (l * topk + r) =
             map (\<lambda>g. smallest_idxs topk (column (level_slice fl bboxes gts nlb l) g) ! r
                        + sum_list (take l nlb)) [0..<length gts]"
    if "l < length nlb" "r < topk" for l r
  proof -
    have "cands ! (l * topk + r) = ms ! l ! r"
      unfolding cands using len lc that by (intro concat_nth_uniform) auto
    with lc that show ?thesis by (simp add: level_slice_def)
  qed
qed

lemma candidate_idxs_row_cases:
  assumes "candidate_idxs fl topk bboxes nlb gts = Inr cands" "r < length cands"
  obtains l q where "l < length nlb" "q < topk" "r = l * topk + q"
proof -
  from candidate_idxs_rows(2)[OF assms(1)] assms(2) have r: "r < length nlb * topk" by simp
  then have k: "0 < topk" by (cases topk) auto
  have "r div topk < length nlb" using r k by (simp add: less_mult_imp_div_less)
  moreover have "r mod topk < topk" using k by simp
  moreover have "r = (r div topk) * topk + r mod topk" by simp
  ultimately show ?thesis using that by blast
qed

lemma column_length [simp]: "length (column m g) = length m"
  by (simp add: column_def)

lemma candidate_idxs_wf:
  assumes "candidate_idxs fl topk bboxes nlb gts = Inr cands" "r < length cands"
  shows "length (cands ! r) = length gts"
    and "g < length gts \<Longrightarrow> cands ! r ! g < length bboxes"
proof -
  from assms obtain l q where lq: "l < length nlb" "q < topk" "r = l * topk + q"
    by (rule candidate_idxs_row_cases)
  note rows = candidate_idxs_rows[OF assms(1)]
  from rows(4)[OF lq(1,2)] lq(3) show "length (cands ! r) = length gts" by simp
  show "cands ! r ! g < length bboxes" if g: "g < length gts"
  proof -
    let ?col = "column (level_slice fl bboxes gts nlb l) g"
    have k: "topk \<le> length ?col" using rows(3)[OF lq(1)] by simp
    then have "smallest_idxs topk ?col ! q \<in> set (smallest_idxs topk ?col)"
      using lq(2) by (simp add: smallest_idxs_length)
    then have "smallest_idxs topk ?col ! q < length ?col" by (rule smallest_idxs_bound)
    then have "smallest_idxs topk ?col ! q + sum_list (take l nlb) < length bboxes"
      by (auto simp: level_slice_length)
    with rows(4)[OF lq(1,2)] lq(3) g show ?thesis by simp
  qed
qed

lemma candidate_idxs_ok:
  assumes "\<forall>c\<in>set nlb. topk \<le> c" "sum_list nlb = length bboxes" "0 < length bboxes"
  shows "\<exists>cands. candidate_idxs fl topk bboxes nlb gts = Inr cands"
proof -
  have "0 + sum_list nlb \<le> length (distances fl bboxes gts)"
    using assms(2) by (simp add: distances_def)
  from level_candidates_ok[OF assms(1) this]
  obtain ms where ms: "level_candidates topk (length gts) (distances fl bboxes gts) 0 nlb = Inr ms"
    by blast
  from assms(2,3) have "nlb \<noteq> []" by auto
  with level_candidates_Inr[OF ms] have "ms \<noteq> []" by auto
  with ms show ?thesis by (simp add: candidate_idxs_def cat_dim0_def)
qed


lemma candidate_overlaps_ok:
  assumes "\<forall>row\<in>set cands. length row = length gts \<and> (\<forall>x\<in>set row. x < length bboxes)"
  shows "candidate_overlaps (map (\<lambda>b. map (\<lambda>g. ov b g) gts) bboxes) (length gts) cands =
           Inr (map (\<lambda>row. map (\<lambda>g. ov (bboxes ! (row ! g)) (gts ! g)) [0..<length gts]) cands)"
proof -
  have "list_all (list_all (\<lambda>i. i < length (map (\<lambda>b. map (\<lambda>g. ov b g) gts) bboxes))) cands"
    using assms by (simp add: list_all_iff)
  moreover have "map (\<lambda>g. map (\<lambda>b. map (\<lambda>g. ov b g) gts) bboxes ! (row ! g) ! g) [0..<length gts]
        = map (\<lambda>g. ov (bboxes ! (row ! g)) (gts ! g)) [0..<length gts]" if "row \<in> set cands" for row
    using assms that by (intro map_cong refl) simp
  ultimately show ?thesis
    unfolding candidate_overlaps_def by (simp cong: map_cong)
qed

lemma offset_columns_aux:
  assumes "\<forall>row\<in>set c. length row = ng" "k \<le> ng"
  shows "foldl (\<lambda>c gt_idx. map (\<lambda>row. row[gt_idx := row ! gt_idx + gt_idx * n]) c) c [0..<k] =
           map (\<lambda>row. map (\<lambda>g. if g < k then row ! g + g * n else row ! g) [0..<ng]) c"
  using assms(2)
proof (induction k)
  case 0
  have "map (\<lambda>g. row ! g) [0..<ng] = row" if "row \<in> set c" for row
    using assms(1) that map_nth[of row] by simp
  then show ?case by (simp cong: map_cong)
next
  case (Suc k)
  have "(map (\<lambda>g. if g < k then row ! g + g * n else row ! g) [0..<ng])
           [k := map (\<lambda>g. if g < k then row ! g + g * n else row ! g) [0..<ng] ! k + k * n]
        = map (\<lambda>g. if g < Suc k then row ! g + g * n else row ! g) [0..<ng]" for row :: "nat list"
    using Suc.prems by (intro nth_equalityI) (auto simp: nth_list_update)
  with Suc show ?case by (simp add: comp_def)
qed

lemma offset_columns_eq:
  assumes "\<forall>row\<in>set cands. length row = ng"
  shows "offset_columns n ng cands = map (\<lambda>row. map (\<lambda>g. row ! g + g * n) [0..<ng]) cands"
  unfolding offset_columns_def offset_columns_aux[OF assms order_refl]
  by (intro map_cong refl) simp

lemma expand_flat_length: "length (expand_flat ng v) = ng * length v"
  by (simp add: expand_flat_def length_concat sum_list_replicate)

lemma expand_flat_nth:
  "g < ng \<Longrightarrow> i < length v \<Longrightarrow> expand_flat ng v ! (g * length v + i) = v ! i"
  unfolding expand_flat_def
  using concat_nth_uniform[of "replicate ng v" "length v" g i] by simp

lemma flat_index_bound: "i < n \<Longrightarrow> g < ng \<Longrightarrow> i + g * n < ng * (n::nat)"
proof -
  assume "i < n" "g < ng"
  then have "i + g * n < Suc g * n" by simp
  also have "\<dots> \<le> ng * n" using \<open>g < ng\<close> by (intro mult_le_mono1) simp
  finally show ?thesis .
qed

lemma flat_index_unique:
  assumes "a + g' * n = g * n + i" "a < n" "i < (n::nat)"
  shows "g' = g \<and> a = i"
proof -
  have "(a + g' * n) div n = g'" "(a + g' * n) mod n = a" using assms(2) by simp_all
  moreover have "(g * n + i) div n = g" "(g * n + i) mod n = i" using assms(3) by simp_all
  ultimately show ?thesis using assms(1) by metis
qed

lemma is_in_gts_ok:
  assumes wf: "\<forall>row\<in>set cands. length row = length gts \<and> (\<forall>x\<in>set row. x < length bboxes)"
    and ng: "0 < length gts"
  shows "is_in_gts fl bboxes gts (offset_columns (length bboxes) (length gts) cands) =
           Inr (map (\<lambda>r. map (\<lambda>g. center_gate fl (bboxes ! (cands ! r ! g)) (gts ! g)) [0..<length gts])
                  [0..<length cands])"
proof -
  let ?n = "length bboxes" and ?ng = "length gts"
  let ?off = "map (\<lambda>row. map (\<lambda>g. row ! g + g * ?n) [0..<?ng]) cands"
  have off: "offset_columns ?n ?ng cands = ?off"
    using wf by (intro offset_columns_eq) simp
  have bound: "\<forall>p\<in>set (concat ?off). p < ?ng * ?n"
  proof
    fix p assume "p \<in> set (concat ?off)"
    then obtain row g where "row \<in> set cands" "g < ?ng" "p = row ! g + g * ?n" by auto
    with wf show "p < ?ng * ?n" by (auto intro!: flat_index_bound)
  qed
  have gat: "gather (expand_flat ?ng (map f bboxes)) (concat ?off)
               = Inr (map (\<lambda>p. expand_flat ?ng (map f bboxes) ! p) (concat ?off))" for f :: "bbox \<Rightarrow> real"
    using bound by (simp add: gather_eq_Inr expand_flat_length)
  have vr: "view_rows ?ng (map (\<lambda>p. expand_flat ?ng (map f bboxes) ! p) (concat ?off))
              = map (\<lambda>row. map (\<lambda>g. f (bboxes ! (row ! g))) [0..<?ng]) cands" for f :: "bbox \<Rightarrow> real"
  proof -
    have "map (\<lambda>p. expand_flat ?ng (map f bboxes) ! p) (concat ?off)
            = concat (map (map (\<lambda>p. expand_flat ?ng (map f bboxes) ! p)) ?off)"
      by (simp add: map_concat)
    also have "map (map (\<lambda>p. expand_flat ?ng (map f bboxes) ! p)) ?off
            = map (\<lambda>row. map (\<lambda>g. f (bboxes ! (row ! g))) [0..<?ng]) cands"
    proof -
      have "expand_flat ?ng (map f bboxes) ! (row ! g + g * ?n) = f (bboxes ! (row ! g))"
        if "row \<in> set cands" "g < ?ng" for row g
      proof -
        from wf that have "row ! g < length (map f bboxes)" by simp
        from expand_flat_nth[OF that(2) this] this show ?thesis by (simp add: add.commute)
      qed
      then show ?thesis by (simp add: comp_def cong: map_cong)
    qed
    finally show ?thesis using ng by (simp add: view_rows_concat)
  qed
  have ent: "map (\<lambda>row. map (\<lambda>g. f (bboxes ! (row ! g))) [0..<?ng]) cands ! r ! g
               = f (bboxes ! (cands ! r ! g))" if "r < length cands" "g < ?ng" for f :: "bbox \<Rightarrow> real" and r g
    using that by simp
  show ?thesis
    unfolding is_in_gts_def off Let_def
    by (simp add: gat vr center_gate_def cong: map_cong)
qed

lemma zip_concat:
  "list_all2 (\<lambda>a b. length a = length b) A B \<Longrightarrow>
     zip (concat A) (concat B) = concat (map2 zip A B)"
  by (induction rule: list_all2_induct) simp_all

lemma masked_index_iff:
  assumes "length A = length B" "\<forall>r<length A. length (A ! r) = c \<and> length (B ! r) = c"
  shows "p \<in> set (map fst (filter snd (zip (concat A) (concat B)))) \<longleftrightarrow>
           (\<exists>r<length A. \<exists>g<c. A ! r ! g = p \<and> B ! r ! g)"
proof -
  have l2: "list_all2 (\<lambda>a b. length a = length b) A B"
    using assms by (simp add: list_all2_conv_all_nth)
  have "p \<in> set (map fst (filter snd (zip (concat A) (concat B)))) \<longleftrightarrow>
          (p, True) \<in> set (concat (map2 zip A B))"
    unfolding zip_concat[OF l2] by force
  also have "\<dots> \<longleftrightarrow> (\<exists>r<length A. (p, True) \<in> set (zip (A ! r) (B ! r)))"
    using assms(1) by (auto simp: set_zip in_set_conv_nth)
  also have "\<dots> \<longleftrightarrow> (\<exists>r<length A. \<exists>g<c. A ! r ! g = p \<and> B ! r ! g)"
    using assms(2) by (fastforce simp: set_zip)
  finally show ?thesis .
qed

lemma scatter_fold_nth:
  "\<forall>j\<in>set index. j < length dst \<Longrightarrow> p < length dst \<Longrightarrow>
     length (fold (\<lambda>j acc. acc[j := src ! j]) index dst) = length dst \<and>
     fold (\<lambda>j acc. acc[j := src ! j]) index dst ! p = (if p \<in> set index then src ! p else dst ! p)"
proof (induction index arbitrary: dst)
  case Nil
  then show ?case by simp
next
  case (Cons j js)
  from Cons.prems have "\<forall>q\<in>set js. q < length (dst[j := src ! j])" "p < length (dst[j := src ! j])"
    by simp_all
  from Cons.IH[OF this] Cons.prems show ?case by (auto simp: nth_list_update)
qed

lemma scatter_fold_length:
  "length (fold (\<lambda>j acc. acc[j := src ! j]) index dst) = length dst"
  by (induction index arbitrary: dst) simp_all

lemma fold_max_eq: "fold max xs (x::real) = Max (set (x # xs))"
  by (rule Max.set_eq_fold[symmetric])

lemma takeWhile_neq_length: "x \<in> set xs \<Longrightarrow> length (takeWhile (\<lambda>v. v \<noteq> x) xs) < length xs"
  by (induction xs) auto

lemma max_dim1_Inr:
  assumes "row \<noteq> []"
  obtains m a where "max_dim1 row = Inr (m, a)" "a < length row" "row ! a = m"
proof -
  from assms obtain x xs where row: "row = x # xs" by (cases row) auto
  define m where "m = fold max xs x"
  have "m \<in> set row" unfolding m_def fold_max_eq row by (rule Max_in) simp_all
  then have "length (takeWhile (\<lambda>v. v \<noteq> m) row) < length row"
    by (rule takeWhile_neq_length)
  moreover have "row ! length (takeWhile (\<lambda>v. v \<noteq> m) row) = m"
    using nth_length_takeWhile[of "\<lambda>v. v \<noteq> m" row] calculation by simp
  moreover have "max_dim1 row = Inr (m, length (takeWhile (\<lambda>v. v \<noteq> m) row))"
    by (simp add: row m_def Let_def)
  ultimately show ?thesis using that by blast
qed

lemma all_ok_map:
  assumes "\<forall>x\<in>set xs. \<exists>y. f x = Inr y"
  shows "\<exists>ys. all_ok (map f xs) = Inr ys \<and> length ys = length xs \<and>
              (\<forall>i<length xs. f (xs ! i) = Inr (ys ! i))"
  using assms
proof (induction xs)
  case Nil
  then show ?case by simp
next
  case (Cons x xs)
  then obtain y ys where y: "f x = Inr y" and ys: "all_ok (map f xs) = Inr ys"
    "length ys = length xs" "\<forall>i<length xs. f (xs ! i) = Inr (ys ! i)" by auto
  have "\<forall>i<length (x # xs). f ((x # xs) ! i) = Inr ((y # ys) ! i)"
    using y ys(3) by (auto simp: nth_Cons split: nat.splits)
  with y ys show ?case by auto
qed

lemma label_fold_nth:
  "\<forall>p\<in>set ps. p < length acc \<Longrightarrow> i < length acc \<Longrightarrow>
     length (fold (\<lambda>(i, v) acc. acc[i := v]) (zip ps (map f ps)) acc) = length acc \<and>
     fold (\<lambda>(i, v) acc. acc[i := v]) (zip ps (map f ps)) acc ! i =
       (if i \<in> set ps then f i else acc ! i)"
proof (induction ps arbitrary: acc)
  case Nil
  then show ?case by simp
next
  case (Cons p ps)
  from Cons.prems have "\<forall>q\<in>set ps. q < length (acc[p := f p])" "i < length (acc[p := f p])"
    by simp_all
  from Cons.IH[OF this] Cons.prems show ?case by (auto simp: nth_list_update)
qed

lemma label_fold_length:
  "length (fold (\<lambda>(i, v) acc. acc[i := v]) ps acc) = length acc"
  by (induction ps arbitrary: acc) auto

lemma assigned_labels_None [simp]: "assigned_labels a None = Inr None"
  by (simp add: assigned_labels_def)

lemma assigned_labels_Some:
  "assigned_labels a (Some gl) = Inr ls \<longleftrightarrow>
     (\<forall>i<length a. 0 < a ! i \<longrightarrow> a ! i - 1 < length gl) \<and>
     (\<exists>l. ls = Some l \<and> length l = length a \<and>
          (\<forall>i<length a. l ! i = (if 0 < a ! i then gl ! (a ! i - 1) else 0)))"
proof -
  let ?pos = "filter (\<lambda>i. 0 < a ! i) [0..<length a]"
  let ?f = "\<lambda>i. gl ! (a ! i - 1)"
  let ?out = "fold (\<lambda>(i, v) acc. acc[i := v]) (zip ?pos (map ?f ?pos)) (replicate (length a) (0::int))"
  have out: "length ?out = length a \<and> (\<forall>i<length a. ?out ! i = (if 0 < a ! i then gl ! (a ! i - 1) else 0))"
  proof -
    have "\<forall>p\<in>set ?pos. p < length (replicate (length a) (0::int))" by simp
    from label_fold_nth[OF this, of _ ?f] have "\<forall>i<length a. ?out ! i = (if 0 < a ! i then gl ! (a ! i - 1) else 0)"
      by auto
    then show ?thesis by (simp add: label_fold_length)
  qed
  have chk: "list_all (\<lambda>i. i < length gl) (map (\<lambda>i. a ! i - 1) ?pos) \<longleftrightarrow>
               (\<forall>i<length a. 0 < a ! i \<longrightarrow> a ! i - 1 < length gl)"
    by (auto simp: list_all_iff)
  show ?thesis
  proof (cases "?pos = []")
    case True
    then have none: "\<forall>i<length a. \<not> 0 < a ! i" by (auto simp: filter_empty_conv)
    have "assigned_labels a (Some gl) = Inr (Some (replicate (length a) 0))"
      using True by (simp add: assigned_labels_def)
    moreover have "(\<exists>l. ls = Some l \<and> length l = length a \<and> (\<forall>i<length a. l ! i = 0))
                     \<longleftrightarrow> ls = Some (replicate (length a) 0)"
    proof
      assume "\<exists>l. ls = Some l \<and> length l = length a \<and> (\<forall>i<length a. l ! i = 0)"
      then obtain l where l: "ls = Some l" "length l = length a" "\<forall>i<length a. l ! i = 0" by blast
      from l(2,3) have "l = replicate (length a) 0" by (intro nth_equalityI) simp_all
      with l(1) show "ls = Some (replicate (length a) 0)" by simp
    next
      assume "ls = Some (replicate (length a) 0)"
      then show "\<exists>l. ls = Some l \<and> length l = length a \<and> (\<forall>i<length a. l ! i = 0)" by simp
    qed
    ultimately show ?thesis using none by auto
  next
    case False
    have eq: "?out = l \<longleftrightarrow> length l = length a \<and>
                 (\<forall>i<length a. l ! i = (if 0 < a ! i then gl ! (a ! i - 1) else 0))" for l
    proof
      assume "?out = l"
      with out show "length l = length a \<and>
                 (\<forall>i<length a. l ! i = (if 0 < a ! i then gl ! (a ! i - 1) else 0))" by blast
    next
      assume l: "length l = length a \<and>
                 (\<forall>i<length a. l ! i = (if 0 < a ! i then gl ! (a ! i - 1) else 0))"
      show "?out = l"
      proof (rule nth_equalityI)
        show "length ?out = length l" using out l by simp
        fix i assume "i < length ?out"
        with out l show "?out ! i = l ! i" by simp
      qed
    qed
    have "assigned_labels a (Some gl) =
            (if \<forall>i<length a. 0 < a ! i \<longrightarrow> a ! i - 1 < length gl then Inr (Some ?out) else Inl IndexError)"
      using False chk by (auto simp: assigned_labels_def gather_def comp_def Let_def)
    moreover have "(\<exists>l. ls = Some l \<and> length l = length a \<and>
                 (\<forall>i<length a. l ! i = (if 0 < a ! i then gl ! (a ! i - 1) else 0)))
               \<longleftrightarrow> ls = Some ?out"
      unfolding eq[symmetric] by auto
    ultimately show ?thesis by (simp only: split: if_splits) auto
  qed
qed

lemma assign_run:
  assumes n: "0 < length bboxes" and ng: "0 < length gts"
    and cands: "candidate_idxs fl topk bboxes nlb gts = Inr cands"
  obtains assigned max_ov where
    "assignment_ok fl ov bboxes gts cands assigned"
    "\<forall>gl. assign fl topk ov bboxes nlb gts gl =
        then_do (assigned_labels assigned gl) (\<lambda>lbls.
          Inr \<lparr>num_gts = length gts, gt_inds = assigned, max_overlaps = max_ov, labels = lbls\<rparr>)"
proof -
  let ?n = "length bboxes" and ?ng = "length gts" and ?R = "length cands"
  have wf: "\<forall>row\<in>set cands. length row = ?ng \<and> (\<forall>x\<in>set row. x < ?n)"
  proof
    fix row assume "row \<in> set cands"
    then obtain r where r: "r < ?R" "row = cands ! r" by (auto simp: in_set_conv_nth)
    from candidate_idxs_wf[OF cands r(1)] r(2)
    show "length row = ?ng \<and> (\<forall>x\<in>set row. x < ?n)" by (auto simp: in_set_conv_nth)
  qed
  have wfn: "length (cands ! r) = ?ng" "g < ?ng \<Longrightarrow> cands ! r ! g < ?n" if "r < ?R" for r g
    using candidate_idxs_wf[OF cands that] by simp_all
  define overlaps where "overlaps = map (\<lambda>b. map (\<lambda>g. ov b g) gts) bboxes"
  define co where "co = map (\<lambda>row. map (\<lambda>g. ov (bboxes ! (row ! g)) (gts ! g)) [0..<?ng]) cands"
  have co: "candidate_overlaps overlaps ?ng cands = Inr co"
    unfolding overlaps_def co_def using wf by (rule candidate_overlaps_ok)
  define off where "off = map (\<lambda>row. map (\<lambda>g. row ! g + g * ?n) [0..<?ng]) cands"
  have off: "offset_columns ?n ?ng cands = off"
    unfolding off_def using wf by (intro offset_columns_eq) simp
  define ing where "ing = map (\<lambda>r. map (\<lambda>g. center_gate fl (bboxes ! (cands ! r ! g)) (gts ! g)) [0..<?ng]) [0..<?R]"
  have ing: "is_in_gts fl bboxes gts off = Inr ing"
    unfolding ing_def off[symmetric] using wf ng by (rule is_in_gts_ok)
  define is_pos where "is_pos = map (\<lambda>r. map (\<lambda>g. above_thr fl ?ng co ! r ! g \<and> ing ! r ! g) [0..<?ng]) [0..<?R]"
  define index where "index = map fst (filter snd (zip (concat off) (concat is_pos)))"
  define src where "src = concat (map (column overlaps) [0..<?ng])"
  define dst where "dst = replicate (?ng * ?n) (- 100000000 :: real)"
  define out where "out = fold (\<lambda>j acc. acc[j := src ! j]) index dst"
  have col_co: "column co g = map (\<lambda>j. ov (bboxes ! j) (gts ! g)) (column cands g)" if "g < ?ng" for g
    using that by (simp add: co_def column_def)
  have above: "above_thr fl ?ng co ! r ! g
               = ge_nan (ov (bboxes ! (cands ! r ! g)) (gts ! g)) (gt_thr fl ov bboxes cands (gts ! g) g)"
    if "r < ?R" "g < ?ng" for r g
    using that col_co[OF that(2)]
    by (simp add: above_thr_def overlaps_thr_per_gt_def gt_thr_def Let_def co_def)
  have index_iff: "p \<in> set index \<longleftrightarrow> (\<exists>r<?R. \<exists>g<?ng. off ! r ! g = p \<and> is_pos ! r ! g)" for p
  proof -
    have "length off = length is_pos" by (simp add: off_def is_pos_def)
    moreover have "\<forall>r<length off. length (off ! r) = ?ng \<and> length (is_pos ! r) = ?ng"
      by (simp add: off_def is_pos_def)
    ultimately have "p \<in> set index \<longleftrightarrow> (\<exists>r<length off. \<exists>g<?ng. off ! r ! g = p \<and> is_pos ! r ! g)"
      unfolding index_def by (rule masked_index_iff)
    then show ?thesis by (simp add: off_def)
  qed
  have off_nth: "off ! r ! g = cands ! r ! g + g * ?n" if "r < ?R" "g < ?ng" for r g
    using that by (simp add: off_def)
  have index_bound: "\<forall>p\<in>set index. p < ?ng * ?n"
  proof
    fix p assume "p \<in> set index"
    then obtain r g where rg: "r < ?R" "g < ?ng" "off ! r ! g = p" unfolding index_iff by blast
    with off_nth[OF rg(1,2)] wfn(2)[OF rg(1,2)] show "p < ?ng * ?n"
      by (auto intro!: flat_index_bound)
  qed
  have src_len: "length src = ?ng * ?n"
    unfolding src_def using length_concat_uniform[of "map (column overlaps) [0..<?ng]" ?n]
    by (simp add: overlaps_def)
  have src_nth: "src ! (g * ?n + i) = ov (bboxes ! i) (gts ! g)" if "g < ?ng" "i < ?n" for g i
  proof -
    have "src ! (g * ?n + i) = map (column overlaps) [0..<?ng] ! g ! i"
      unfolding src_def using that by (intro concat_nth_uniform) (simp_all add: overlaps_def)
    with that show ?thesis by (simp add: column_def overlaps_def)
  qed
  have sc: "scatter_from src index dst = Inr out"
    unfolding scatter_from_def out_def using index_bound src_len
    by (simp add: list_all_iff dst_def)
  have out_len: "length out = ?ng * ?n"
    unfolding out_def by (simp add: scatter_fold_length dst_def)
  have out_nth: "out ! p = (if p \<in> set index then src ! p else - 100000000)" if "p < ?ng * ?n" for p
  proof -
    have "\<forall>j\<in>set index. j < length dst" using index_bound by (simp add: dst_def)
    moreover have "p < length dst" using that by (simp add: dst_def)
    ultimately show ?thesis
      unfolding out_def using scatter_fold_nth[of index dst p src] that by (simp add: dst_def)
  qed
  define rows where "rows = map (\<lambda>i. map (\<lambda>g. view_rows ?n out ! g ! i) [0..<?ng]) [0..<?n]"
  have rows_nth: "rows ! i ! g = out ! (g * ?n + i)" if "i < ?n" "g < ?ng" for i g
    using that view_rows_nth[OF n out_len that(2,1)] by (simp add: rows_def)
  have "\<forall>row\<in>set rows. \<exists>y. max_dim1 row = Inr y"
  proof
    fix row assume "row \<in> set rows"
    then have "row \<noteq> []" using ng by (auto simp: rows_def)
    then show "\<exists>y. max_dim1 row = Inr y" by (rule max_dim1_Inr) blast
  qed
  from all_ok_map[OF this] obtain maxes where
    maxes: "all_ok (map max_dim1 rows) = Inr maxes" "length maxes = length rows"
      "\<forall>i<length rows. max_dim1 (rows ! i) = Inr (maxes ! i)" by blast
  define assigned where
    "assigned = map (\<lambda>i. if map fst maxes ! i \<noteq> - 100000000 then map snd maxes ! i + 1 else 0) [0..<?n]"
  have len: "length assigned = ?n" by (simp add: assigned_def)
  have key: "assigned ! i = 0 \<or>
        (\<exists>g<?ng. assigned ! i = Suc g \<and>
           (\<exists>r<?R. cands ! r ! g = i \<and>
              ge_nan (ov (bboxes ! i) (gts ! g)) (gt_thr fl ov bboxes cands (gts ! g) g) \<and>
              center_gate fl (bboxes ! i) (gts ! g)))" if i: "i < ?n" for i
  proof (cases "fst (maxes ! i) = - 100000000")
    case True
    with i maxes(2) show ?thesis by (simp add: assigned_def rows_def)
  next
    case False
    have rl: "length (rows ! i) = ?ng" "rows ! i \<noteq> []" using i ng by (auto simp: rows_def)
    from max_dim1_Inr[OF rl(2)] obtain m a where
      ma: "max_dim1 (rows ! i) = Inr (m, a)" "a < length (rows ! i)" "rows ! i ! a = m" by blast
    from maxes(3) i ma(1) have mx: "maxes ! i = (m, a)" by (simp add: rows_def)
    have a: "a < ?ng" using ma(2) rl(1) by simp
    have asg: "assigned ! i = Suc a" using False i mx maxes(2) by (simp add: assigned_def rows_def)
    have "out ! (a * ?n + i) \<noteq> - 100000000"
      using rows_nth[OF i a] ma(3) mx False by simp
    moreover have pb: "a * ?n + i < ?ng * ?n"
      using flat_index_bound[OF i a] by (simp add: add.commute)
    ultimately have "a * ?n + i \<in> set index" using out_nth[OF pb] by (simp split: if_splits)
    then obtain r g' where rg: "r < ?R" "g' < ?ng" "off ! r ! g' = a * ?n + i" "is_pos ! r ! g'"
      unfolding index_iff by blast
    from off_nth[OF rg(1,2)] rg(3) have "cands ! r ! g' + g' * ?n = a * ?n + i" by simp
    from flat_index_unique[OF this wfn(2)[OF rg(1,2)] i] have g': "g' = a" and c: "cands ! r ! a = i"
      by auto
    from rg(4) rg(1) a have "above_thr fl ?ng co ! r ! a" "ing ! r ! a"
      unfolding g' by (simp_all add: is_pos_def)
    with above[OF rg(1) a] c rg(1) a have
      "ge_nan (ov (bboxes ! i) (gts ! a)) (gt_thr fl ov bboxes cands (gts ! a) a)"
      "center_gate fl (bboxes ! i) (gts ! a)"
      by (simp_all add: ing_def)
    with asg a c rg(1) show ?thesis by blast
  qed
  have run: "assign fl topk ov bboxes nlb gts gl =
        then_do (assigned_labels assigned gl) (\<lambda>lbls.
          Inr \<lparr>num_gts = ?ng, gt_inds = assigned, max_overlaps = map fst maxes, labels = lbls\<rparr>)" for gl
    using n ng unfolding assign_def Let_def
    by (simp add: cands co[unfolded overlaps_def] off ing
        sc[unfolded src_def dst_def index_def is_pos_def overlaps_def]
        maxes(1)[unfolded rows_def map_map] assigned_def)
  have ok: "assignment_ok fl ov bboxes gts cands assigned"
    unfolding assignment_ok_def positive_for_def using len key by blast
  from run have "\<forall>gl. assign fl topk ov bboxes nlb gts gl =
        then_do (assigned_labels assigned gl) (\<lambda>lbls.
          Inr \<lparr>num_gts = length gts, gt_inds = assigned, max_overlaps = map fst maxes, labels = lbls\<rparr>)"
    by (rule allI)
  with ok show thesis by (rule that)
qed

lemma assign_Inr_candidates:
  assumes "assign fl topk ov bboxes nlb gts gl = Inr res"
  shows "0 < length bboxes" "0 < length gts" "\<exists>cands. candidate_idxs fl topk bboxes nlb gts = Inr cands"
proof -
  from assms show "0 < length bboxes" "0 < length gts"
    by (auto simp: assign_def split: if_splits)
  then show "\<exists>cands. candidate_idxs fl topk bboxes nlb gts = Inr cands"
    using assms by (cases "candidate_idxs fl topk bboxes nlb gts") (auto simp: assign_def Let_def)
qed

lemma assign_Inr_facts:
  assumes "assign fl topk ov bboxes nlb gts gl = Inr res"
  shows "\<exists>cands. candidate_idxs fl topk bboxes nlb gts = Inr cands \<and>
           num_gts res = length gts \<and>
           assignment_ok fl ov bboxes gts cands (gt_inds res) \<and>
           assigned_labels (gt_inds res) gl = Inr (labels res)"
proof -
  note c = assign_Inr_candidates[OF assms]
  from c(3) obtain cands where cands: "candidate_idxs fl topk bboxes nlb gts = Inr cands" by blast
  obtain assigned max_ov where
    a: "assignment_ok fl ov bboxes gts cands assigned" and
    runall: "\<forall>gl. assign fl topk ov bboxes nlb gts gl =
        then_do (assigned_labels assigned gl) (\<lambda>lbls.
          Inr \<lparr>num_gts = length gts, gt_inds = assigned, max_overlaps = max_ov, labels = lbls\<rparr>)"
    by (rule assign_run[OF c(1,2) cands, of ov])
  from runall have run: "assign fl topk ov bboxes nlb gts gl =
        then_do (assigned_labels assigned gl) (\<lambda>lbls.
          Inr \<lparr>num_gts = length gts, gt_inds = assigned, max_overlaps = max_ov, labels = lbls\<rparr>)"
    by (rule spec)
  from assms[unfolded run then_do_eq_Inr] obtain lbls where
    l: "assigned_labels assigned gl = Inr lbls"
       "res = \<lparr>num_gts = length gts, gt_inds = assigned, max_overlaps = max_ov, labels = lbls\<rparr>"
    by auto
  have "num_gts res = length gts" "gt_inds res = assigned" "labels res = lbls"
    unfolding l(2) by simp_all
  with cands a l(1) show ?thesis by simp
qed

lemma assignment_ok_bound:
  "assignment_ok fl ov bboxes gts cands a \<Longrightarrow> i < length bboxes \<Longrightarrow> a ! i \<le> length gts"
proof -
  assume a: "assignment_ok fl ov bboxes gts cands a" and i: "i < length bboxes"
  from a i have "a ! i = 0 \<or> (\<exists>g. a ! i = Suc g \<and> positive_for fl ov bboxes gts cands i g)"
    unfolding assignment_ok_def by blast
  then show ?thesis
  proof
    assume "a ! i = 0" then show ?thesis by simp
  next
    assume "\<exists>g. a ! i = Suc g \<and> positive_for fl ov bboxes gts cands i g"
    then obtain g where "a ! i = Suc g" "g < length gts" unfolding positive_for_def by blast
    then show ?thesis by simp
  qed
qed

lemma assigned_labels_ok:
  assumes "\<forall>i<length a. 0 < a ! i \<longrightarrow> a ! i - 1 < length gl"
  shows "\<exists>ls. assigned_labels a (Some gl) = Inr ls"
proof -
  have "list_all (\<lambda>i. i < length gl)
          (map (\<lambda>i. a ! i - 1) (filter (\<lambda>i. 0 < a ! i) [0..<length a]))"
    using assms by (simp add: list_all_iff)
  then show ?thesis
    by (simp add: assigned_labels_def gather_def Let_def)
qed

lemma assign_returns:
  assumes "0 < length bboxes" "0 < length gts" "sum_list nlb = length bboxes"
    "\<forall>c\<in>set nlb. topk \<le> c" "\<forall>l. gl = Some l \<longrightarrow> length l = length gts"
  shows "\<exists>res. assign fl topk ov bboxes nlb gts gl = Inr res"
proof -
  from candidate_idxs_ok[OF assms(4,3,1)] obtain cands where
    cands: "candidate_idxs fl topk bboxes nlb gts = Inr cands" by blast
  obtain assigned max_ov where
    a: "assignment_ok fl ov bboxes gts cands assigned" and
    runall: "\<forall>gl. assign fl topk ov bboxes nlb gts gl =
        then_do (assigned_labels assigned gl) (\<lambda>lbls.
          Inr \<lparr>num_gts = length gts, gt_inds = assigned, max_overlaps = max_ov, labels = lbls\<rparr>)"
    by (rule assign_run[OF assms(1,2) cands, of ov])
  from runall have run: "assign fl topk ov bboxes nlb gts gl =
        then_do (assigned_labels assigned gl) (\<lambda>lbls.
          Inr \<lparr>num_gts = length gts, gt_inds = assigned, max_overlaps = max_ov, labels = lbls\<rparr>)"
    by (rule spec)
  have "\<exists>lbls. assigned_labels assigned gl = Inr lbls"
  proof (cases gl)
    case None
    then show ?thesis by simp
  next
    case (Some l)
    with assms(5) have len: "length l = length gts" by simp
    have "\<forall>i<length assigned. 0 < assigned ! i \<longrightarrow> assigned ! i - 1 < length l"
    proof (intro allI impI)
      fix i assume i: "i < length assigned" "0 < assigned ! i"
      from i(1) a have "i < length bboxes" by (simp add: assignment_ok_def)
      from assignment_ok_bound[OF a this] i(2) len show "assigned ! i - 1 < length l" by simp
    qed
    then show ?thesis unfolding Some by (rule assigned_labels_ok)
  qed
  then obtain lbls where "assigned_labels assigned gl = Inr lbls" by blast
  then show ?thesis unfolding run by simp
qed


lemma ge_nan_add_nan:
  "ge_nan v (add_nan fl a b) \<Longrightarrow> \<exists>m s. a = Some m \<and> b = Some s \<and> fl (m + s) \<le> v"
  by (cases a; cases b) (simp_all add: ge_nan_def add_nan_def)

lemma assign_empty:
  "length bboxes = 0 \<or> length gts = 0 \<Longrightarrow> assign fl topk ov bboxes nlb gts gl = Inl ValueError"
  by (simp add: assign_def)

lemma assign_short_level:
  assumes "0 < length bboxes" "0 < length gts" "\<exists>c\<in>set nlb. c < topk"
  shows "assign fl topk ov bboxes nlb gts gl = Inl RuntimeError"
proof -
  have "candidate_idxs fl topk bboxes nlb gts = Inl RuntimeError"
    unfolding candidate_idxs_def using level_candidates_short[OF assms(3)] by simp
  with assms(1,2) show ?thesis by (simp add: assign_def Let_def)
qed

lemma assign_Inr_range:
  assumes "assign fl topk ov bboxes nlb gts gl = Inr res"
  shows "num_gts res = length gts \<and> length (gt_inds res) = length bboxes \<and>
       (\<forall>i<length bboxes. gt_inds res ! i = 0 \<or>
            (1 \<le> gt_inds res ! i \<and> gt_inds res ! i \<le> length gts)) \<and>
       (case gl of None \<Rightarrow> labels res = None
        | Some l \<Rightarrow> \<exists>ls. labels res = Some ls \<and> length ls = length bboxes \<and>
             (\<forall>i<length bboxes. if gt_inds res ! i = 0 then ls ! i = 0
                else gt_inds res ! i - 1 < length l \<and> ls ! i = l ! (gt_inds res ! i - 1)))"
proof -
  from assign_Inr_facts[OF assms] obtain cands where
    n: "num_gts res = length gts" and
    ok: "assignment_ok fl ov bboxes gts cands (gt_inds res)" and
    lb: "assigned_labels (gt_inds res) gl = Inr (labels res)" by blast
  from ok have len: "length (gt_inds res) = length bboxes" by (simp add: assignment_ok_def)
  have rng: "\<forall>i<length bboxes. gt_inds res ! i = 0 \<or>
            (1 \<le> gt_inds res ! i \<and> gt_inds res ! i \<le> length gts)"
    using assignment_ok_bound[OF ok] by (auto simp: less_Suc_eq_le)
  have lab: "case gl of None \<Rightarrow> labels res = None
        | Some l \<Rightarrow> \<exists>ls. labels res = Some ls \<and> length ls = length bboxes \<and>
             (\<forall>i<length bboxes. if gt_inds res ! i = 0 then ls ! i = 0
                else gt_inds res ! i - 1 < length l \<and> ls ! i = l ! (gt_inds res ! i - 1))"
  proof (cases gl)
    case None
    with lb show ?thesis by simp
  next
    case (Some l)
    from lb[unfolded Some assigned_labels_Some] obtain ls where
      b: "\<forall>i<length (gt_inds res). 0 < gt_inds res ! i \<longrightarrow> gt_inds res ! i - 1 < length l" and
      ls: "labels res = Some ls" "length ls = length (gt_inds res)"
        "\<forall>i<length (gt_inds res). ls ! i = (if 0 < gt_inds res ! i then l ! (gt_inds res ! i - 1) else 0)"
      by blast
    have "\<forall>i<length bboxes. if gt_inds res ! i = 0 then ls ! i = 0
                else gt_inds res ! i - 1 < length l \<and> ls ! i = l ! (gt_inds res ! i - 1)"
      using b ls(3) len by simp
    with ls(1,2) len show ?thesis unfolding Some by simp
  qed
  from n len rng lab show ?thesis by blast
qed

section \<open>The concrete runs of the assigner\<close>

lemmas ex_defs = ex_gt_def ex_far_def ex_mid_def ex_top_def ex_bboxes_def

lemma ex_candidates: "candidate_idxs fl32 1 ex_bboxes [2, 1, 1] [ex_gt] = Inr [[1], [2], [3]]"
  by (simp add: candidate_idxs_def distances_def center_distance_def center_x_def center_y_def
      ex_defs topk_dim0_def smallest_idxs_def column_def cat_dim0_def upt_rec fl32_values
      fl32_le_zero_iff)

lemma ex_overlaps:
  "candidate_overlaps (map (\<lambda>b. map (\<lambda>g. same_box_overlap b g) [ex_gt]) ex_bboxes)
     (length [ex_gt]) [[1], [2], [3]] = Inr [[1], [0], [0]]"
  by (simp add: candidate_overlaps_def ex_defs same_box_overlap_def)

lemma sqrt_third: "sqrt (1 / 3) \<le> 2 / 3"
  by (rule real_le_lsqrt) (simp_all add: power2_eq_square)

lemma ex_thr:
  "overlaps_thr_per_gt fl32 (Suc 0) [[1], [0], [0]] = [Some (fl32 (1 / 3 + sqrt (1 / 3)))]"
  by (simp add: overlaps_thr_per_gt_def mean_def std_def add_nan_def column_def power2_eq_square)

lemma ex_above: "above_thr fl32 (length [ex_gt]) [[1], [0], [0]] = [[True], [False], [False]]"
proof -
  have "0 < sqrt (1 / 3 :: real)" by simp
  then have "\<not> (1 / 3 + sqrt (1 / 3) \<le> (0::real))" by linarith
  then have a: "\<not> fl32 (1 / 3 + sqrt (1 / 3)) \<le> 0" unfolding fl32_le_zero_iff .
  have "1 / 3 + sqrt (1 / 3) \<le> (1::real)" using sqrt_third by linarith
  then have b: "fl32 (1 / 3 + sqrt (1 / 3)) \<le> 1" by (rule fl32_le_one)
  from a b show ?thesis
    by (simp add: above_thr_def ex_thr ge_nan_def del: real_sqrt_gt_0_iff)
qed

lemma ex_offset:
  "offset_columns (length ex_bboxes) (length [ex_gt]) [[1], [2], [3]] = [[1], [2], [3]]"
  by (simp add: offset_columns_def)

lemma ex_in_gts:
  "is_in_gts fl32 ex_bboxes [ex_gt] [[1], [2], [3]] = Inr [[True], [False], [False]]"
  by (simp add: is_in_gts_def expand_flat_def gather_def center_x_def center_y_def ex_defs upt_rec
      fl32_values)

lemma ex_guard: "(length ex_bboxes = 0 \<or> length [ex_gt] = 0) = False"
  by (simp add: ex_bboxes_def)

lemma ex_assign:
  "assign fl32 1 same_box_overlap ex_bboxes [2, 1, 1] [ex_gt] (Some [7]) = Inr ex_result"
  apply (simp only: assign_def ex_guard if_False Let_def ex_candidates then_do_Inr ex_overlaps
      ex_above ex_offset ex_in_gts)
  apply (simp add: ex_defs same_box_overlap_def scatter_from_def column_def upt_rec
      assigned_labels_def gather_def ex_result_def)
  done


























text \<open>
  Claim C1, as amended. \<open>assign\<close> raises \<open>ValueError\<close> when there is no box or no ground
  truth. It returns an assignment whenever both are non-empty, the levels partition the
  boxes with at least \<open>topk\<close> boxes each, and \<open>gt_labels\<close>, when given, has one label per
  ground truth. Every assignment it returns maps each box to 0 (background) or to an
  index in \<open>1..num_gt\<close>; with \<open>gt_labels\<close> given, a positive box carries the label of its
  ground truth and a background box the label 0; without, there are no labels.
\<close>

theorem assign_maps_boxes:
  "(length bboxes = 0 \<or> length gt_bboxes = 0 \<longrightarrow>
      assign fl topk bbox_overlaps bboxes num_level_bboxes gt_bboxes gt_labels = Inl ValueError) \<and>
   (0 < length bboxes \<and> 0 < length gt_bboxes \<and> sum_list num_level_bboxes = length bboxes \<and>
    (\<forall>c\<in>set num_level_bboxes. topk \<le> c) \<and>
    (\<forall>l. gt_labels = Some l \<longrightarrow> length l = length gt_bboxes) \<longrightarrow>
      (\<exists>res. assign fl topk bbox_overlaps bboxes num_level_bboxes gt_bboxes gt_labels = Inr res)) \<and>
   (\<forall>res. assign fl topk bbox_overlaps bboxes num_level_bboxes gt_bboxes gt_labels = Inr res \<longrightarrow>
       num_gts res = length gt_bboxes \<and> length (gt_inds res) = length bboxes \<and>
       (\<forall>i<length bboxes. gt_inds res ! i = 0 \<or>
            (1 \<le> gt_inds res ! i \<and> gt_inds res ! i \<le> length gt_bboxes)) \<and>
       (case gt_labels of None \<Rightarrow> labels res = None
        | Some l \<Rightarrow> \<exists>ls. labels res = Some ls \<and> length ls = length bboxes \<and>
             (\<forall>i<length bboxes. if gt_inds res ! i = 0 then ls ! i = 0
                else gt_inds res ! i - 1 < length l \<and> ls ! i = l ! (gt_inds res ! i - 1))))"
proof (intro conjI impI allI)
  assume "length bboxes = 0 \<or> length gt_bboxes = 0"
  then show "assign fl topk bbox_overlaps bboxes num_level_bboxes gt_bboxes gt_labels = Inl ValueError"
    by (rule assign_empty)
next
  assume "0 < length bboxes \<and> 0 < length gt_bboxes \<and> sum_list num_level_bboxes = length bboxes \<and>
    (\<forall>c\<in>set num_level_bboxes. topk \<le> c) \<and>
    (\<forall>l. gt_labels = Some l \<longrightarrow> length l = length gt_bboxes)"
  then show "\<exists>res. assign fl topk bbox_overlaps bboxes num_level_bboxes gt_bboxes gt_labels = Inr res"
    by (intro assign_returns) simp_all
next
  fix res
  assume a: "assign fl topk bbox_overlaps bboxes num_level_bboxes gt_bboxes gt_labels = Inr res"
  note r = assign_Inr_range[OF a]
  from r show "num_gts res = length gt_bboxes" by blast
  from r show "length (gt_inds res) = length bboxes" by blast
  from r show "case gt_labels of None \<Rightarrow> labels res = None
        | Some l \<Rightarrow> \<exists>ls. labels res = Some ls \<and> length ls = length bboxes \<and>
             (\<forall>i<length bboxes. if gt_inds res ! i = 0 then ls ! i = 0
                else gt_inds res ! i - 1 < length l \<and> ls ! i = l ! (gt_inds res ! i - 1))" by blast
  fix i assume "i < length bboxes"
  with r show "gt_inds res ! i = 0 \<or>
            (1 \<le> gt_inds res ! i \<and> gt_inds res ! i \<le> length gt_bboxes)" by blast
qed

text \<open>The concrete run, for claim C1.\<close>

theorem assign_maps_boxes_witness:
  "assign fl32 1 same_box_overlap ex_bboxes [2, 1, 1] [ex_gt] (Some [7]) = Inr ex_result \<and>
   gt_inds ex_result = [0, 1, 0, 0] \<and> labels ex_result = Some [0, 7, 0, 0] \<and>
   num_gts ex_result = length [ex_gt] \<and> length (gt_inds ex_result) = length ex_bboxes \<and>
   (1::nat) < length ex_bboxes \<and>
   1 \<le> gt_inds ex_result ! 1 \<and> gt_inds ex_result ! 1 \<le> length [ex_gt] \<and>
   (\<exists>ls. labels ex_result = Some ls \<and> length ls = length ex_bboxes \<and>
         ls ! 0 = 0 \<and> ls ! 1 = [7] ! (gt_inds ex_result ! 1 - 1)) \<and>
   assign fl32 1 same_box_overlap ex_bboxes [2, 1, 1] [] (Some [7]) = Inl ValueError"
proof -
  note t = assign_maps_boxes[of ex_bboxes "[ex_gt]" fl32 1 same_box_overlap "[2, 1, 1]" "Some [7]"]
  note e = assign_maps_boxes[of ex_bboxes "[]" fl32 1 same_box_overlap "[2, 1, 1]" "Some [7]"]
  have g: "gt_inds ex_result = [0, 1, 0, 0]" "labels ex_result = Some [0, 7, 0, 0]"
    by (simp_all add: ex_result_def)
  have n: "(1::nat) < length ex_bboxes" "(0::nat) < length ex_bboxes" by (simp_all add: ex_bboxes_def)
  from t ex_assign have r: "num_gts ex_result = length [ex_gt]"
    "length (gt_inds ex_result) = length ex_bboxes"
    "\<forall>i<length ex_bboxes. gt_inds ex_result ! i = 0 \<or>
        (1 \<le> gt_inds ex_result ! i \<and> gt_inds ex_result ! i \<le> length [ex_gt])"
    "\<exists>ls. labels ex_result = Some ls \<and> length ls = length ex_bboxes \<and>
        (\<forall>i<length ex_bboxes. if gt_inds ex_result ! i = 0 then ls ! i = 0
            else gt_inds ex_result ! i - 1 < length [7::int] \<and>
                 ls ! i = [7] ! (gt_inds ex_result ! i - 1))"
    by (simp_all del: One_nat_def)
  from r(3) n(1) g(1) have b: "1 \<le> gt_inds ex_result ! 1" "gt_inds ex_result ! 1 \<le> length [ex_gt]"
    by auto
  from r(4) obtain ls where ls: "labels ex_result = Some ls" "length ls = length ex_bboxes"
    "\<forall>i<length ex_bboxes. if gt_inds ex_result ! i = 0 then ls ! i = 0
            else gt_inds ex_result ! i - 1 < length [7::int] \<and>
                 ls ! i = [7] ! (gt_inds ex_result ! i - 1)" by blast
  from ls(3) n g(1) have "ls ! 0 = 0" "ls ! 1 = [7] ! (gt_inds ex_result ! 1 - 1)" by auto
  with ls(1,2) have l: "\<exists>ls. labels ex_result = Some ls \<and> length ls = length ex_bboxes \<and>
         ls ! 0 = 0 \<and> ls ! 1 = [7] ! (gt_inds ex_result ! 1 - 1)" by blast
  from e have v: "assign fl32 1 same_box_overlap ex_bboxes [2, 1, 1] [] (Some [7]) = Inl ValueError"
    by simp
  from ex_assign g r(1,2) n(1) b l v show ?thesis by blast
qed

text \<open>
  Claim C1 as stated fails: for the empty set of ground truths no assignment is returned.
\<close>

theorem assign_empty_gt_counterexample:
  "assign fl32 1 same_box_overlap ex_bboxes [2, 1, 1] [] None = Inl ValueError"
  by (simp add: assign_def)

text \<open>
  Claim C8. \<open>assign\<close> raises \<open>ValueError\<close> on an empty box set or an empty ground-truth
  set, and its selection raises (\<open>RuntimeError\<close> of \<open>topk\<close>) when some level holds fewer
  than \<open>topk\<close> boxes; so it returns only on non-empty inputs whose levels all hold at least
  \<open>topk\<close> boxes. On such inputs, with the levels a partition of the boxes and one label per
  ground truth, it returns: none of its indexing steps, each of which the model checks,
  is out of range.
\<close>

theorem assign_well_defined:
  "(length bboxes = 0 \<or> length gt_bboxes = 0 \<longrightarrow>
      assign fl topk bbox_overlaps bboxes num_level_bboxes gt_bboxes gt_labels = Inl ValueError) \<and>
   (0 < length bboxes \<and> 0 < length gt_bboxes \<and> (\<exists>c\<in>set num_level_bboxes. c < topk) \<longrightarrow>
      assign fl topk bbox_overlaps bboxes num_level_bboxes gt_bboxes gt_labels = Inl RuntimeError) \<and>
   (0 < length bboxes \<and> 0 < length gt_bboxes \<and> sum_list num_level_bboxes = length bboxes \<and>
    (\<forall>c\<in>set num_level_bboxes. topk \<le> c) \<and>
    (\<forall>l. gt_labels = Some l \<longrightarrow> length l = length gt_bboxes) \<longrightarrow>
      (\<exists>res. assign fl topk bbox_overlaps bboxes num_level_bboxes gt_bboxes gt_labels = Inr res)) \<and>
   (\<forall>res. assign fl topk bbox_overlaps bboxes num_level_bboxes gt_bboxes gt_labels = Inr res \<longrightarrow>
      0 < length bboxes \<and> 0 < length gt_bboxes \<and> (\<forall>c\<in>set num_level_bboxes. topk \<le> c))"
proof (intro conjI impI allI ballI)
  assume "length bboxes = 0 \<or> length gt_bboxes = 0"
  then show "assign fl topk bbox_overlaps bboxes num_level_bboxes gt_bboxes gt_labels = Inl ValueError"
    by (rule assign_empty)
next
  assume "0 < length bboxes \<and> 0 < length gt_bboxes \<and> (\<exists>c\<in>set num_level_bboxes. c < topk)"
  then show "assign fl topk bbox_overlaps bboxes num_level_bboxes gt_bboxes gt_labels = Inl RuntimeError"
    by (intro assign_short_level) simp_all
next
  assume "0 < length bboxes \<and> 0 < length gt_bboxes \<and> sum_list num_level_bboxes = length bboxes \<and>
    (\<forall>c\<in>set num_level_bboxes. topk \<le> c) \<and>
    (\<forall>l. gt_labels = Some l \<longrightarrow> length l = length gt_bboxes)"
  then show "\<exists>res. assign fl topk bbox_overlaps bboxes num_level_bboxes gt_bboxes gt_labels = Inr res"
    by (intro assign_returns) simp_all
next
  fix res
  assume a: "assign fl topk bbox_overlaps bboxes num_level_bboxes gt_bboxes gt_labels = Inr res"
  from assign_Inr_candidates(1,2)[OF a] show "0 < length bboxes" "0 < length gt_bboxes" .
  fix c assume c: "c \<in> set num_level_bboxes"
  show "topk \<le> c"
  proof (rule ccontr)
    assume "\<not> topk \<le> c"
    with c have "\<exists>c\<in>set num_level_bboxes. c < topk" by (auto simp: not_le)
    from assign_short_level[OF assign_Inr_candidates(1,2)[OF a] this] a show False by simp
  qed
qed

theorem assign_well_defined_witness:
  "(\<exists>res. assign fl32 1 same_box_overlap ex_bboxes [2, 1, 1] [ex_gt] (Some [7]) = Inr res) \<and>
   assign fl32 1 same_box_overlap [] [] [ex_gt] None = Inl ValueError \<and>
   assign fl32 9 same_box_overlap ex_bboxes [2, 1, 1] [ex_gt] None = Inl RuntimeError \<and>
   0 < length ex_bboxes \<and> 0 < length [ex_gt] \<and> (1::nat) \<le> [2, 1, 1] ! 1"
proof -
  have len: "length ex_bboxes = 4" by (simp add: ex_bboxes_def)
  note t = assign_well_defined[of ex_bboxes "[ex_gt]" fl32 1 same_box_overlap "[2, 1, 1]" "Some [7]"]
  note e = assign_well_defined[of "[]" "[ex_gt]" fl32 1 same_box_overlap "[]" None]
  note s = assign_well_defined[of ex_bboxes "[ex_gt]" fl32 9 same_box_overlap "[2, 1, 1]" None]
  from t have "\<exists>res. assign fl32 1 same_box_overlap ex_bboxes [2, 1, 1] [ex_gt] (Some [7]) = Inr res"
    by (simp add: len)
  moreover from e have "assign fl32 1 same_box_overlap [] [] [ex_gt] None = Inl ValueError" by simp
  moreover from s have "assign fl32 9 same_box_overlap ex_bboxes [2, 1, 1] [ex_gt] None = Inl RuntimeError"
    by (simp add: len)
  moreover from t ex_assign have "0 < length ex_bboxes \<and> 0 < length [ex_gt] \<and> (\<forall>c\<in>set [2, 1, 1]. (1::nat) \<le> c)"
    by blast
  then have "0 < length ex_bboxes \<and> 0 < length [ex_gt] \<and> (1::nat) \<le> [2, 1, 1] ! 1"
    by simp
  ultimately show ?thesis by blast
qed






section \<open>Properties of the semi-supervised detector\<close>



















lemma sublist_loss_unsup: "sublist ''loss'' (''unsup_'' @ k) = sublist ''loss'' k"
  by (simp add: sublist_Cons_right)

lemma weight_nth:
  "k < length losses \<Longrightarrow>
     weight fl fmax losses w ! k =
       (fst (losses ! k),
        if sublist ''loss'' (fst (losses ! k)) then scaled fl fmax w (snd (losses ! k))
        else snd (losses ! k))"
  by (cases "losses ! k"; cases "snd (losses ! k)") (simp_all add: weight_def scaled_def)

lemma fmul_zero:
  assumes "fl 0 = 0" "0 \<le> fmax"
  shows "fmul fl fmax v 0 = times_zero v"
  using assms by (cases v) (simp_all add: fmul_def times_zero_def to_fval_def)

lemma times_zero_eq: "times_zero = (\<lambda>v. case v of Finite x \<Rightarrow> Finite 0 | _ \<Rightarrow> NaN)"
  by (rule ext) (simp add: times_zero_def)

lemma scaled_zero:
  assumes "fl 0 = 0" "0 \<le> fmax"
  shows "scaled fl fmax 0 v = zeroed v"
  using fmul_zero[of fl fmax, OF assms] by (cases v) (simp_all add: scaled_def zeroed_def)


text \<open>
  Claim C10, as amended. \<open>weight\<close> keeps the names and their order, multiplies by the
  weight the values whose name contains \<open>loss\<close> (a sequence element by element) and
  leaves every other value as it is. The product is the floating point one: of a finite
  number \<open>x\<close> it is the rounded \<open>x * w\<close>, or an infinity when that exceeds the largest
  finite number; of not-a-number it is not-a-number; of an infinity it is an infinity, or
  not-a-number when the weight is 0. In \<open>pseudo_loss\<close> the weight is the configured one
  when the batch holds a pseudo instance and 0 when it holds none; every entry is renamed
  with the prefix \<open>unsup_\<close>, which does not change whether the name contains \<open>loss\<close>.
  With the weight 0 the finite numbers of the \<open>loss\<close> entries become 0, their infinities
  and not-a-numbers become not-a-number, and the other entries stay.
\<close>

theorem weight_scales_loss_entries:
  "length (weight fl fmax losses w) = length losses \<and>
   map fst (weight fl fmax losses w) = map fst losses \<and>
   (\<forall>k<length losses.
      snd (weight fl fmax losses w ! k) =
        (if sublist ''loss'' (fst (losses ! k))
         then (case snd (losses ! k) of
                 Tensor v \<Rightarrow> Tensor (fmul fl fmax v w)
               | Sequence items \<Rightarrow> Sequence (map (\<lambda>item. fmul fl fmax item w) items))
         else snd (losses ! k))) \<and>
   (\<forall>x. fmul fl fmax (Finite x) w =
      (if fmax < fl (x * fl w) then PosInf
       else if fl (x * fl w) < - fmax then NegInf else Finite (fl (x * fl w)))) \<and>
   fmul fl fmax NaN w = NaN \<and>
   fmul fl fmax PosInf w = (if 0 < fl w then PosInf else if fl w < 0 then NegInf else NaN) \<and>
   fmul fl fmax NegInf w = (if 0 < fl w then NegInf else if fl w < 0 then PosInf else NaN) \<and>
   pseudo_loss fl fmax cfg_unsup_weight student_loss batch_data_samples =
     map (\<lambda>(k, v). (''unsup_'' @ k, v))
       (weight fl fmax student_loss
          (if 0 < sum_list (map (\<lambda>d. length (inst_bboxes (gt_instances d))) batch_data_samples)
           then (case cfg_unsup_weight of Some w \<Rightarrow> w | None \<Rightarrow> 1) else 0)) \<and>
   length (pseudo_loss fl fmax cfg_unsup_weight student_loss batch_data_samples)
     = length student_loss \<and>
   (sum_list (map (\<lambda>d. length (inst_bboxes (gt_instances d))) batch_data_samples) = 0 \<and>
    fl 0 = 0 \<and> 0 \<le> fmax \<longrightarrow>
      (\<forall>k<length student_loss.
         fst (pseudo_loss fl fmax cfg_unsup_weight student_loss batch_data_samples ! k)
           = ''unsup_'' @ fst (student_loss ! k) \<and>
         sublist ''loss'' (fst (pseudo_loss fl fmax cfg_unsup_weight student_loss batch_data_samples ! k))
           = sublist ''loss'' (fst (student_loss ! k)) \<and>
         snd (pseudo_loss fl fmax cfg_unsup_weight student_loss batch_data_samples ! k) =
           (if sublist ''loss'' (fst (student_loss ! k))
            then (case snd (student_loss ! k) of
                    Tensor v \<Rightarrow> Tensor (case v of Finite x \<Rightarrow> Finite 0 | _ \<Rightarrow> NaN)
                  | Sequence items \<Rightarrow>
                      Sequence (map (\<lambda>v. case v of Finite x \<Rightarrow> Finite 0 | _ \<Rightarrow> NaN) items))
            else snd (student_loss ! k))))"
proof -
  have len: "length (weight fl fmax losses w) = length losses" for losses w
    by (simp add: weight_def)
  have keys: "map fst (weight fl fmax losses w) = map fst losses"
    by (rule nth_equalityI) (simp_all add: len weight_nth)
  have vals: "\<forall>k<length losses.
      snd (weight fl fmax losses w ! k) =
        (if sublist ''loss'' (fst (losses ! k))
         then (case snd (losses ! k) of
                 Tensor v \<Rightarrow> Tensor (fmul fl fmax v w)
               | Sequence items \<Rightarrow> Sequence (map (\<lambda>item. fmul fl fmax item w) items))
         else snd (losses ! k))"
    by (simp add: weight_nth scaled_def)
  have fin: "\<forall>x. fmul fl fmax (Finite x) w =
      (if fmax < fl (x * fl w) then PosInf
       else if fl (x * fl w) < - fmax then NegInf else Finite (fl (x * fl w)))"
    by (simp add: fmul_def to_fval_def)
  have nan: "fmul fl fmax NaN w = NaN"
    "fmul fl fmax PosInf w = (if 0 < fl w then PosInf else if fl w < 0 then NegInf else NaN)"
    "fmul fl fmax NegInf w = (if 0 < fl w then NegInf else if fl w < 0 then PosInf else NaN)"
    by (simp_all add: fmul_def)
  have pl: "pseudo_loss fl fmax cfg_unsup_weight student_loss batch_data_samples =
     map (\<lambda>(k, v). (''unsup_'' @ k, v))
       (weight fl fmax student_loss
          (if 0 < sum_list (map (\<lambda>d. length (inst_bboxes (gt_instances d))) batch_data_samples)
           then (case cfg_unsup_weight of Some w \<Rightarrow> w | None \<Rightarrow> 1) else 0))"
    by (simp add: pseudo_loss_def Let_def)
  have plen: "length (pseudo_loss fl fmax cfg_unsup_weight student_loss batch_data_samples)
                = length student_loss"
    by (simp add: pseudo_loss_def Let_def len)
  have zero: "\<forall>k<length student_loss.
         fst (pseudo_loss fl fmax cfg_unsup_weight student_loss batch_data_samples ! k)
           = ''unsup_'' @ fst (student_loss ! k) \<and>
         sublist ''loss'' (fst (pseudo_loss fl fmax cfg_unsup_weight student_loss batch_data_samples ! k))
           = sublist ''loss'' (fst (student_loss ! k)) \<and>
         snd (pseudo_loss fl fmax cfg_unsup_weight student_loss batch_data_samples ! k) =
           (if sublist ''loss'' (fst (student_loss ! k))
            then (case snd (student_loss ! k) of
                    Tensor v \<Rightarrow> Tensor (case v of Finite x \<Rightarrow> Finite 0 | _ \<Rightarrow> NaN)
                  | Sequence items \<Rightarrow>
                      Sequence (map (\<lambda>v. case v of Finite x \<Rightarrow> Finite 0 | _ \<Rightarrow> NaN) items))
            else snd (student_loss ! k))"
    if h: "sum_list (map (\<lambda>d. length (inst_bboxes (gt_instances d))) batch_data_samples) = 0 \<and>
           fl 0 = 0 \<and> 0 \<le> fmax"
  proof (intro allI impI)
    fix k assume k: "k < length student_loss"
    from h have z: "sum_list (map (\<lambda>d. length (inst_bboxes (gt_instances d))) batch_data_samples) = 0"
      and f0: "fl 0 = 0" and fm: "0 \<le> fmax" by blast+
    have pl0: "pseudo_loss fl fmax cfg_unsup_weight student_loss batch_data_samples
                = map (\<lambda>(k, v). (''unsup_'' @ k, v)) (weight fl fmax student_loss 0)"
      unfolding pseudo_loss_def Let_def z by simp
    have "pseudo_loss fl fmax cfg_unsup_weight student_loss batch_data_samples ! k
            = (''unsup_'' @ fst (student_loss ! k),
               if sublist ''loss'' (fst (student_loss ! k)) then zeroed (snd (student_loss ! k))
               else snd (student_loss ! k))"
      unfolding pl0 using k by (simp add: len weight_nth scaled_zero[of fl fmax, OF f0 fm])
    then show "fst (pseudo_loss fl fmax cfg_unsup_weight student_loss batch_data_samples ! k)
           = ''unsup_'' @ fst (student_loss ! k) \<and>
         sublist ''loss'' (fst (pseudo_loss fl fmax cfg_unsup_weight student_loss batch_data_samples ! k))
           = sublist ''loss'' (fst (student_loss ! k)) \<and>
         snd (pseudo_loss fl fmax cfg_unsup_weight student_loss batch_data_samples ! k) =
           (if sublist ''loss'' (fst (student_loss ! k))
            then (case snd (student_loss ! k) of
                    Tensor v \<Rightarrow> Tensor (case v of Finite x \<Rightarrow> Finite 0 | _ \<Rightarrow> NaN)
                  | Sequence items \<Rightarrow>
                      Sequence (map (\<lambda>v. case v of Finite x \<Rightarrow> Finite 0 | _ \<Rightarrow> NaN) items))
            else snd (student_loss ! k))"
      using sublist_loss_unsup[of "fst (student_loss ! k)"]
      by (simp add: zeroed_def times_zero_eq split: loss_value.splits)
  qed
  from len keys vals fin nan pl plen zero show ?thesis by blast
qed


lemma ex_weight:
  "weight fl32 fmax32 ex_losses 3 =
     [(''loss_cls'', Tensor (Finite (5033165 / 16777216))), (''acc'', Tensor (Finite 90)),
      (''loss_bbox'', Sequence [Finite 3, PosInf, NaN])]"
  by (simp add: weight_def ex_losses_def sublist_Cons_right fmul_def to_fval_def fmax32_def
      fl32_values fl32_three_tenths)

lemma ex_pseudo_loss:
  "pseudo_loss fl32 fmax32 (Some 4) ex_losses ([] :: unit data_sample list) =
     [(''unsup_loss_cls'', Tensor (Finite 0)), (''unsup_acc'', Tensor (Finite 90)),
      (''unsup_loss_bbox'', Sequence [Finite 0, NaN, NaN])]"
  by (simp add: pseudo_loss_def weight_def ex_losses_def sublist_Cons_right fmul_def to_fval_def
      fmax32_def)

text \<open>
  A run in single precision, for claim C10. The weight 3 turns the loss \<open>0.1\<close> of the
  format into \<open>5033165 / 16777216\<close>, the rounded product, and the largest finite number
  into an infinity; with no pseudo instance the finite losses become 0 and the infinite
  one not-a-number.
\<close>

theorem weight_scales_loss_entries_witness:
  "weight fl32 fmax32 ex_losses 3 =
     [(''loss_cls'', Tensor (Finite (5033165 / 16777216))), (''acc'', Tensor (Finite 90)),
      (''loss_bbox'', Sequence [Finite 3, PosInf, NaN])] \<and>
   (2::nat) < length ex_losses \<and>
   snd (weight fl32 fmax32 ex_losses 3 ! 0) = Tensor (fmul fl32 fmax32 (Finite (13421773 / 134217728)) 3) \<and>
   fmul fl32 fmax32 (Finite (13421773 / 134217728)) 3 = Finite (5033165 / 16777216) \<and>
   fmul fl32 fmax32 (Finite fmax32) 3 = PosInf \<and>
   snd (weight fl32 fmax32 ex_losses 3 ! 1) = snd (ex_losses ! 1) \<and>
   sum_list (map (\<lambda>d. length (inst_bboxes (gt_instances d))) ([] :: unit data_sample list)) = 0 \<and>
   fl32 0 = 0 \<and> 0 \<le> fmax32 \<and>
   pseudo_loss fl32 fmax32 (Some 4) ex_losses ([] :: unit data_sample list) =
     [(''unsup_loss_cls'', Tensor (Finite 0)), (''unsup_acc'', Tensor (Finite 90)),
      (''unsup_loss_bbox'', Sequence [Finite 0, NaN, NaN])] \<and>
   snd (pseudo_loss fl32 fmax32 (Some 4) ex_losses ([] :: unit data_sample list) ! 2)
     = Sequence [Finite 0, NaN, NaN]"
proof -
  note t = weight_scales_loss_entries[of fl32 fmax32 ex_losses 3 "Some 4" ex_losses
      "[] :: unit data_sample list"]
  note u = weight_scales_loss_entries[of fl32 fmax32 ex_losses 3 "Some 4" ex_losses
      "[] :: unit data_sample list", THEN conjunct2, THEN conjunct2, THEN conjunct2,
      THEN conjunct1, rule_format]
  have n: "(2::nat) < length ex_losses" "(1::nat) < length ex_losses" "(0::nat) < length ex_losses"
    by (simp_all add: ex_losses_def)
  have s: "sublist ''loss'' (fst (ex_losses ! 2))" "\<not> sublist ''loss'' (fst (ex_losses ! 1))"
    "sublist ''loss'' (fst (ex_losses ! 0))"
    by (simp_all add: ex_losses_def sublist_Cons_right)
  have z: "sum_list (map (\<lambda>d. length (inst_bboxes (gt_instances d))) ([] :: unit data_sample list)) = 0"
    by simp
  have f: "fl32 0 = 0" "0 \<le> fmax32" by (simp_all add: fmax32_def)
  have e: "snd (ex_losses ! 0) = Tensor (Finite (13421773 / 134217728))"
    "snd (ex_losses ! 2) = Sequence [Finite 1, PosInf, NaN]"
    by (simp_all add: ex_losses_def)
  from t n s e have 1:
    "snd (weight fl32 fmax32 ex_losses 3 ! 0) = Tensor (fmul fl32 fmax32 (Finite (13421773 / 134217728)) 3)"
    "snd (weight fl32 fmax32 ex_losses 3 ! 1) = snd (ex_losses ! 1)" by auto
  have 2: "fmul fl32 fmax32 (Finite (13421773 / 134217728)) 3 = Finite (5033165 / 16777216)"
    unfolding u[of "13421773 / 134217728"]
    by (simp add: fl32_values fl32_three_tenths fmax32_def)
  have 3: "fmul fl32 fmax32 (Finite fmax32) 3 = PosInf"
    unfolding u[of fmax32] using fl32_overflow by (simp add: fl32_values)
  from t z f n s e have 4:
    "snd (pseudo_loss fl32 fmax32 (Some 4) ex_losses ([] :: unit data_sample list) ! 2)
       = Sequence [Finite 0, NaN, NaN]"
    by auto
  from ex_weight n(1) 1(1) 2 3 1(2) z f ex_pseudo_loss 4 show ?thesis by (intro conjI)
qed

text \<open>
  Claim C10 as stated fails: with no pseudo instance a \<open>loss\<close> entry that is not a number,
  or infinite, is not zeroed; the product with the weight 0 is not-a-number.
\<close>

theorem pseudo_loss_not_zeroed_counterexample:
  "pseudo_loss fl32 fmax32 (Some 4)
       [(''loss_cls'', Tensor NaN), (''loss_bbox'', Tensor PosInf)] ([] :: unit data_sample list)
     = [(''unsup_loss_cls'', Tensor NaN), (''unsup_loss_bbox'', Tensor NaN)]"
  by (simp add: pseudo_loss_def weight_def sublist_Cons_right fmul_def)

end
